theory Spec2Isabelle
  imports Complex_Main "HOL-Library.Word" "HOL-Library.AList" "HOL-Library.Log_Nat"
begin

unbundle bit_operations_syntax

section \<open>Analytik: identity, bucketing and delivery\<close>

text \<open>
  A shallow embedding of the parts of \<^verbatim>\<open>src/analytik.js\<close> that decide identity
  labels, A/B bucketing, funnel progress and the delivery queue. The class
  \<^verbatim>\<open>DiscordAnalytics\<close> declares \<^verbatim>\<open>createABTest\<close>, \<^verbatim>\<open>getABTestVariant\<close>,
  \<^verbatim>\<open>createFunnel\<close> and \<^verbatim>\<open>trackFunnelStep\<close> several times; in a JavaScript class body
  the last declaration of a method name is the one installed on the prototype, so the
  definitions below embed the declarations of lines 3546 to 3673.

  Conventions. JavaScript strings are \<^typ>\<open>string\<close> (code units below 256, read with
  \<^const>\<open>of_char\<close>). A number is the rational value of a double; the division of
  \<^verbatim>\<open>hashCode\<close> and the products with \<^verbatim>\<open>Math.random()\<close> are rounded to the nearest double
  as the language does. \<^verbatim>\<open>Date.now()\<close> is a parameter \<open>now\<close>, whose
  argument is the ordinal of the reading inside one call. The contents of
  \<^verbatim>\<open>localStorage\<close> are kept parsed: each key the code uses is a typed field, an absent
  key is the empty object, and an inaccessible store (every access throws) is \<open>None\<close>.
\<close>

subsection \<open>Numbers\<close>

text \<open>
  The result of an arithmetic operation on doubles is the exact result rounded to the
  nearest number with a significand of 53 bits, a tie going to the even significand.
  \<open>binExp x\<close> is the binary exponent of a positive \<open>x\<close>: the \<open>e\<close> with \<open>2 powi e \<le> x\<close> and
  \<open>x < 2 powi (e + 1)\<close>. The numbers with that exponent and 53 bits are the multiples of
  \<open>2 powi (e - 52)\<close>. The range of the exponent is left unbounded: the quotient of
  \<^verbatim>\<open>hashCode\<close> lies between \<open>2 powi (- 32)\<close> and 2, and a product of a double with a
  positive integer that is too small for 53 bits is exact in the format and here.
\<close>

definition roundHalfEven :: "rat \<Rightarrow> int" where
  "roundHalfEven z =
     (let f = \<lfloor>z\<rfloor>; r = z - of_int f
      in if r < 1 / 2 then f else if 1 / 2 < r then f + 1 else if even f then f else f + 1)"

definition binExp :: "rat \<Rightarrow> int" where
  "binExp x =
     (if 1 \<le> x then bitlen \<lfloor>x\<rfloor> - 1 else - bitlen (\<lceil>1 / x\<rceil> - 1))"

definition roundDouble :: "rat \<Rightarrow> rat" where
  "roundDouble x =
     (if x = 0 then 0
      else let u = 2 powi (binExp \<bar>x\<bar> - 52) in of_int (roundHalfEven (x / u)) * u)"

subsection \<open>JavaScript objects used as dictionaries\<close>

text \<open>
  The objects returned by \<^verbatim>\<open>JSON.parse\<close> are ordinary objects, so \<^verbatim>\<open>obj[key]\<close> finds an
  own property first and a member of \<^verbatim>\<open>Object.prototype\<close> otherwise.
\<close>

definition objectPrototypeKeys :: "string list" where
  "objectPrototypeKeys =
     [''constructor'', ''__defineGetter__'', ''__defineSetter__'', ''hasOwnProperty'',
      ''__lookupGetter__'', ''__lookupSetter__'', ''isPrototypeOf'', ''propertyIsEnumerable'',
      ''toString'', ''valueOf'', ''__proto__'', ''toLocaleString'']"

datatype 'a lookup = Own 'a | Inherited | Missing

definition getProp :: "(string \<times> 'a) list \<Rightarrow> string \<Rightarrow> 'a lookup" where
  "getProp obj k =
     (case map_of obj k of
        Some v \<Rightarrow> Own v
      | None \<Rightarrow> if k \<in> set objectPrototypeKeys then Inherited else Missing)"

text \<open>
  \<^verbatim>\<open>obj[key] = value\<close> followed by \<^verbatim>\<open>JSON.stringify(obj)\<close>: the value replaces an own
  property in place or is appended as the last one; assigning to \<^verbatim>\<open>__proto__\<close> creates
  no own property.
\<close>

definition setProp :: "(string \<times> 'a) list \<Rightarrow> string \<Rightarrow> 'a \<Rightarrow> (string \<times> 'a) list" where
  "setProp obj k v =
     (if k = ''__proto__'' \<and> map_of obj k = None then obj else AList.update k v obj)"

text \<open>\<^verbatim>\<open>xs[i]\<close> on an array of strings: \<^verbatim>\<open>undefined\<close> out of range.\<close>

datatype jsval = JNull | JUndefined | JString string | JInherited string

definition js_nth :: "string list \<Rightarrow> nat \<Rightarrow> jsval" where
  "js_nth xs i = (if i < length xs then JString (xs ! i) else JUndefined)"

datatype error = StorageError | TypeError

subsection \<open>Stored data\<close>

record fp_data =
  fp_fingerprint :: "string option"
  fp_label :: "string option"
  fp_timestamp :: nat

record ab_test =
  variants :: "string list"
  trafficSplit :: rat
  test_createdAt :: nat

record funnel =
  funnel_steps :: "string list"
  funnel_createdAt :: nat

record step_entry =
  step :: string
  timestamp :: nat
  properties :: string

record user_funnel =
  startedAt :: nat
  steps :: "step_entry list"

record local_store =
  da_fp :: "fp_data option"
  da_labels :: "(string \<times> string) list"
  da_ab_tests :: "(string \<times> ab_test) list"
  da_ab_assignments :: "(string \<times> string) list"
  da_funnels :: "(string \<times> funnel) list"
  da_user_funnels :: "(string \<times> user_funnel) list"

text \<open>
  The part of \<^verbatim>\<open>this\<close> and of the browser that identity and bucketing read and write.
  \<open>sessionStorage\<close>, \<open>indexedDB\<close> and \<open>cookie\<close> are \<open>None\<close> when the backend is
  unavailable.
\<close>

record analytik =
  fingerprint :: "string option"
  fingerprintLabel :: "string option"
  localStorage :: "local_store option"
  sessionStorage :: "fp_data option option"
  indexedDB :: "(string option \<times> fp_data) list option"
  cookie :: "fp_data option option"

text \<open>A nullable string inside a template literal or a string concatenation.\<close>

definition labelString :: "analytik \<Rightarrow> string" where
  "labelString a = (case fingerprintLabel a of None \<Rightarrow> ''null'' | Some l \<Rightarrow> l)"

text \<open>The template literal \<^verbatim>\<open>`${this.fingerprintLabel}_${name}`\<close>.\<close>

definition userKey :: "analytik \<Rightarrow> string \<Rightarrow> string" where
  "userKey a name = labelString a @ ''_'' @ name"

subsection \<open>Observations and logging\<close>

datatype level = Info | Warn | Error

record funnel_event =
  ev_type :: string
  ev_funnelName :: string
  ev_stepName :: string
  ev_stepIndex :: nat
  ev_totalSteps :: nat
  ev_completed :: bool
  ev_properties :: string
  ev_fingerprint :: "string option"
  ev_timestamp :: nat

datatype observation =
    ABTestCreated string "string list" rat "string option" nat
  | FunnelCreated string "string list" "string option" nat
  | FunnelEvent funnel_event

text \<open>The calls a method makes to \<^verbatim>\<open>this.log\<close> and \<^verbatim>\<open>this.sendEvent\<close>, in order.\<close>

datatype effect = Log level string | SendEvent observation

subsection \<open>A/B tests (lines 3546 to 3584, 3764 to 3773)\<close>

fun hashLoop :: "32 word \<Rightarrow> string \<Rightarrow> 32 word" where
  "hashLoop hash [] = hash"
| "hashLoop hash (c # cs) = hashLoop ((push_bit 5 hash - hash) + of_char c) cs"

definition hashCode :: "string \<Rightarrow> rat" where
  "hashCode str =
     (if length str = 0 then 0
      else roundDouble (of_int \<bar>sint (hashLoop 0 str)\<bar> / 2147483647))"

definition createABTest ::
  "(nat \<Rightarrow> nat) \<Rightarrow> analytik \<Rightarrow> string \<Rightarrow> string list \<Rightarrow> rat option \<Rightarrow> error + (analytik \<times> effect list)"
where
  "createABTest now a testName vs split =
     (let trafficSplit = (case split of None \<Rightarrow> 1 / 2 | Some r \<Rightarrow> r) in
      case localStorage a of
        None \<Rightarrow> Inl StorageError
      | Some ls \<Rightarrow>
          let tests = setProp (da_ab_tests ls) testName
                        \<lparr>variants = vs, trafficSplit = trafficSplit, test_createdAt = now 0\<rparr>
          in Inr (a\<lparr>localStorage := Some (ls\<lparr>da_ab_tests := tests\<rparr>)\<rparr>,
                  [SendEvent (ABTestCreated testName vs trafficSplit (fingerprintLabel a) (now 1))]))"

text \<open>
  The part of \<^verbatim>\<open>getABTestVariant\<close> after the stored assignment was not returned:
  lines 3574 to 3583. A variant that is \<^verbatim>\<open>undefined\<close> is dropped by \<^verbatim>\<open>JSON.stringify\<close>,
  so the key is absent from what is written back.
\<close>

definition assignVariant :: "analytik \<Rightarrow> local_store \<Rightarrow> string \<Rightarrow> error + (jsval \<times> analytik)" where
  "assignVariant a ls testName =
     (case getProp (da_ab_tests ls) testName of
        Missing \<Rightarrow> Inr (JNull, a)
      | Inherited \<Rightarrow> Inl TypeError
      | Own test \<Rightarrow>
          let hash = hashCode (labelString a @ testName);
              variant = (if hash < trafficSplit test then js_nth (variants test) 0
                         else js_nth (variants test) 1);
              assignments = (case variant of
                               JString v \<Rightarrow> setProp (da_ab_assignments ls) (userKey a testName) v
                             | _ \<Rightarrow> AList.delete (userKey a testName) (da_ab_assignments ls))
          in Inr (variant, a\<lparr>localStorage := Some (ls\<lparr>da_ab_assignments := assignments\<rparr>)\<rparr>))"

definition getABTestVariant :: "analytik \<Rightarrow> string \<Rightarrow> error + (jsval \<times> analytik)" where
  "getABTestVariant a testName =
     (case localStorage a of
        None \<Rightarrow> Inl StorageError
      | Some ls \<Rightarrow>
          (case getProp (da_ab_assignments ls) (userKey a testName) of
            Inherited \<Rightarrow> Inr (JInherited (userKey a testName), a)
          | Own v \<Rightarrow> (if v = [] then assignVariant a ls testName else Inr (JString v, a))
          | Missing \<Rightarrow> assignVariant a ls testName))"

text \<open>Calling \<^verbatim>\<open>getABTestVariant\<close> again and again, as long as no call throws.\<close>

fun repeatGet :: "nat \<Rightarrow> analytik \<Rightarrow> string \<Rightarrow> error + (jsval list \<times> analytik)" where
  "repeatGet 0 a testName = Inr ([], a)"
| "repeatGet (Suc n) a testName =
     (case getABTestVariant a testName of
        Inl e \<Rightarrow> Inl e
      | Inr (v, a') \<Rightarrow>
          (case repeatGet n a' testName of
             Inl e \<Rightarrow> Inl e
           | Inr (vs, a'') \<Rightarrow> Inr (v # vs, a'')))"

text \<open>
  The same hash read as arithmetic: the polynomial in 31 over the code units, wrapped to a
  signed 32-bit integer (\<^verbatim>\<open>hash & hash\<close> is \<^verbatim>\<open>ToInt32\<close>).
\<close>

definition polyHash :: "string \<Rightarrow> int" where
  "polyHash s = (\<Sum>i<length s. of_char (s ! i) * 31 ^ (length s - Suc i))"

definition toInt32 :: "int \<Rightarrow> int" where
  "toInt32 x = (x + 2 ^ 31) mod 2 ^ 32 - 2 ^ 31"


subsection \<open>Concrete clients\<close>

definition emptyStore :: local_store where
  "emptyStore = \<lparr>da_fp = None, da_labels = [], da_ab_tests = [], da_ab_assignments = [],
                  da_funnels = [], da_user_funnels = []\<rparr>"

definition client :: "string option \<Rightarrow> string option \<Rightarrow> local_store option \<Rightarrow> analytik" where
  "client fp label ls =
     \<lparr>fingerprint = fp, fingerprintLabel = label, localStorage = ls,
      sessionStorage = Some None, indexedDB = Some [], cookie = Some None\<rparr>"

definition abStore :: "(string \<times> ab_test) list \<Rightarrow> (string \<times> string) list \<Rightarrow> local_store" where
  "abStore tests assignments = emptyStore\<lparr>da_ab_tests := tests, da_ab_assignments := assignments\<rparr>"

definition twoVariantTest :: ab_test where
  "twoVariantTest = \<lparr>variants = [''A'', ''B''], trafficSplit = 1 / 2, test_createdAt = 0\<rparr>"


subsection \<open>Funnels (lines 3608 to 3673)\<close>

text \<open>\<^verbatim>\<open>steps.indexOf(stepName)\<close>: the first position, \<open>None\<close> for \<^verbatim>\<open>-1\<close>.\<close>

fun indexOf :: "string list \<Rightarrow> string \<Rightarrow> nat option" where
  "indexOf [] x = None"
| "indexOf (y # ys) x = (if y = x then Some 0 else map_option Suc (indexOf ys x))"

definition createFunnel ::
  "(nat \<Rightarrow> nat) \<Rightarrow> analytik \<Rightarrow> string \<Rightarrow> string list \<Rightarrow> error + (analytik \<times> effect list)"
where
  "createFunnel now a funnelName stps =
     (case localStorage a of
        None \<Rightarrow> Inl StorageError
      | Some ls \<Rightarrow>
          let funnels = setProp (da_funnels ls) funnelName
                          \<lparr>funnel_steps = stps, funnel_createdAt = now 0\<rparr>
          in Inr (a\<lparr>localStorage := Some (ls\<lparr>da_funnels := funnels\<rparr>)\<rparr>,
                  [SendEvent (FunnelCreated funnelName stps (fingerprintLabel a) (now 1))]))"

text \<open>
  Lines 3650 to 3672 of \<^verbatim>\<open>trackFunnelStep\<close>: the entry is pushed onto the progress \<open>uf\<close> of
  this client and funnel, the progress is written back, and one observation is sent. \<open>k\<close>
  counts the readings of the clock made before.
\<close>

definition recordStep ::
  "(nat \<Rightarrow> nat) \<Rightarrow> nat \<Rightarrow> analytik \<Rightarrow> local_store \<Rightarrow> funnel \<Rightarrow> string \<Rightarrow> string \<Rightarrow> nat \<Rightarrow> string
     \<Rightarrow> user_funnel \<Rightarrow> analytik \<times> effect list"
where
  "recordStep now k a ls fnl funnelName stepName stepIndex props uf =
     (let uf' = uf\<lparr>steps := steps uf @ [\<lparr>step = stepName, timestamp = now k, properties = props\<rparr>]\<rparr>;
          userFunnels = setProp (da_user_funnels ls) (userKey a funnelName) uf';
          completedSteps = map step (steps uf');
          isComplete = list_all (\<lambda>s. s \<in> set completedSteps) (funnel_steps fnl)
      in (a\<lparr>localStorage := Some (ls\<lparr>da_user_funnels := userFunnels\<rparr>)\<rparr>,
          [SendEvent (FunnelEvent
             \<lparr>ev_type = (if isComplete then ''funnel_completed'' else ''funnel_step''),
              ev_funnelName = funnelName,
              ev_stepName = stepName,
              ev_stepIndex = stepIndex,
              ev_totalSteps = length (funnel_steps fnl),
              ev_completed = isComplete,
              ev_properties = props,
              ev_fingerprint = fingerprintLabel a,
              ev_timestamp = now (Suc k)\<rparr>)]))"

definition trackFunnelStep ::
  "(nat \<Rightarrow> nat) \<Rightarrow> analytik \<Rightarrow> string \<Rightarrow> string \<Rightarrow> string \<Rightarrow> error + (analytik \<times> effect list)"
where
  "trackFunnelStep now a funnelName stepName props =
     (case localStorage a of
        None \<Rightarrow> Inl StorageError
      | Some ls \<Rightarrow>
          (case getProp (da_funnels ls) funnelName of
             Missing \<Rightarrow> Inr (a, [Log Warn (''Funnel not found: '' @ funnelName)])
           | Inherited \<Rightarrow> Inl TypeError
           | Own fnl \<Rightarrow>
               (case indexOf (funnel_steps fnl) stepName of
                  None \<Rightarrow>
                    Inr (a, [Log Warn (''Step not found in funnel '' @ funnelName @ '': '' @ stepName)])
                | Some stepIndex \<Rightarrow>
                    (case getProp (da_user_funnels ls) (userKey a funnelName) of
                       Inherited \<Rightarrow> Inl TypeError
                     | Missing \<Rightarrow>
                         Inr (recordStep now 1 a ls fnl funnelName stepName stepIndex props
                                \<lparr>startedAt = now 0, steps = []\<rparr>)
                     | Own uf \<Rightarrow>
                         Inr (recordStep now 0 a ls fnl funnelName stepName stepIndex props uf)))))"

definition funnelStore :: "(string \<times> funnel) list \<Rightarrow> (string \<times> user_funnel) list \<Rightarrow> local_store" where
  "funnelStore funnels userFunnels = emptyStore\<lparr>da_funnels := funnels, da_user_funnels := userFunnels\<rparr>"

subsection \<open>Fingerprint and label (lines 186 to 228, 371 to 478)\<close>

definition ADJECTIVES :: "string list" where
  "ADJECTIVES =
     [''Super'', ''Quick'', ''Silent'', ''Wild'', ''Dark'', ''Bright'', ''Strong'', ''Fast'',
      ''Cool'', ''Smart'', ''Bold'', ''Swift'', ''Stealth'', ''Mystic'', ''Noble'', ''Fierce'',
      ''Wise'', ''Sharp'', ''Brave'', ''Calm'']"

definition ANIMALS :: "string list" where
  "ANIMALS =
     [''Lion'', ''Eagle'', ''Wolf'', ''Tiger'', ''Bear'', ''Fox'', ''Hawk'', ''Shark'',
      ''Dragon'', ''Panther'', ''Falcon'', ''Lynx'', ''Raven'', ''Cobra'', ''Viper'', ''Jaguar'',
      ''Puma'', ''Cheetah'', ''Leopard'', ''Rhino'']"

text \<open>\<^verbatim>\<open>Math.floor(Math.random() * n)\<close> for a draw \<open>r\<close>: the product is a double.\<close>

definition floorMul :: "rat \<Rightarrow> nat \<Rightarrow> nat" where
  "floorMul r n = nat \<lfloor>roundDouble (r * of_nat n)\<rfloor>"

text \<open>An array element inside a template literal: \<^verbatim>\<open>undefined\<close> is printed as such.\<close>

definition strAt :: "string list \<Rightarrow> nat \<Rightarrow> string" where
  "strAt xs i = (if i < length xs then xs ! i else ''undefined'')"

text \<open>A non-negative integer inside a template literal: its decimal digits.\<close>

definition digitChar :: "nat \<Rightarrow> char" where
  "digitChar d = ''0123456789'' ! d"

fun showNat :: "nat \<Rightarrow> string" where
  "showNat n = (if n < 10 then [digitChar n] else showNat (n div 10) @ [digitChar (n mod 10)])"

text \<open>
  The label built by pass \<open>k\<close> of the loop of lines 388 to 394. \<open>rnd i\<close> is the value of the
  \<open>i\<close>-th call of \<^verbatim>\<open>Math.random()\<close>; each pass makes three calls.
\<close>

definition candidate :: "(nat \<Rightarrow> rat) \<Rightarrow> nat \<Rightarrow> string" where
  "candidate rnd k =
     (let adjective = strAt ADJECTIVES (floorMul (rnd (3 * k)) (length ADJECTIVES));
          animal = strAt ANIMALS (floorMul (rnd (3 * k + 1)) (length ANIMALS));
          number = floorMul (rnd (3 * k + 2)) 9000 + 1000
      in adjective @ animal @ showNat number)"

definition getStoredFingerprintLabel :: "analytik \<Rightarrow> string \<Rightarrow> string option" where
  "getStoredFingerprintLabel a fp =
     (case localStorage a of
        None \<Rightarrow> None
      | Some ls \<Rightarrow>
          (case da_fp ls of
             None \<Rightarrow> None
           | Some d \<Rightarrow> if fp_fingerprint d = Some fp then fp_label d else None))"

definition storeFingerprintLabel :: "analytik \<Rightarrow> string \<Rightarrow> string \<Rightarrow> analytik" where
  "storeFingerprintLabel a fp label =
     (case localStorage a of
        None \<Rightarrow> a
      | Some ls \<Rightarrow> a\<lparr>localStorage := Some (ls\<lparr>da_labels := setProp (da_labels ls) fp label\<rparr>)\<rparr>)"

definition isLabelInUse :: "analytik \<Rightarrow> string \<Rightarrow> bool" where
  "isLabelInUse a label =
     (case localStorage a of
        None \<Rightarrow> False
      | Some ls \<Rightarrow> label \<in> set (map snd (da_labels ls)))"

text \<open>
  The \<^verbatim>\<open>do ... while\<close> loop: \<open>attempts\<close> is the counter before the pass; the result is the
  label and the counter after the last pass.
\<close>

function labelLoop :: "(nat \<Rightarrow> rat) \<Rightarrow> analytik \<Rightarrow> nat \<Rightarrow> string \<times> nat" where
  "labelLoop rnd a attempts =
     (let label = candidate rnd attempts;
          attempts' = attempts + 1
      in if isLabelInUse a label \<and> attempts' < 10 then labelLoop rnd a attempts'
         else (label, attempts'))"
  by pat_completeness auto
termination
  by (relation "measure (\<lambda>(rnd, a, attempts). 10 - attempts)") auto

declare labelLoop.simps [simp del]

text \<open>A string or \<^verbatim>\<open>null\<close> as a condition.\<close>

definition truthy :: "string option \<Rightarrow> bool" where
  "truthy s = (case s of None \<Rightarrow> False | Some l \<Rightarrow> l \<noteq> [])"

definition getFingerprintLabel :: "(nat \<Rightarrow> rat) \<Rightarrow> analytik \<Rightarrow> string \<Rightarrow> string \<times> analytik" where
  "getFingerprintLabel rnd a fp =
     (case getStoredFingerprintLabel a fp of
        Some l \<Rightarrow>
          if l \<noteq> [] then (l, a)
          else (let label = fst (labelLoop rnd a 0) in (label, storeFingerprintLabel a fp label))
      | None \<Rightarrow>
          (let label = fst (labelLoop rnd a 0) in (label, storeFingerprintLabel a fp label)))"

text \<open>
  \<^verbatim>\<open>storeInIndexedDB\<close> catches its own failures; the \<^verbatim>\<open>put\<close> is made by the \<^verbatim>\<open>onsuccess\<close>
  callback of the open request and is taken as done here.
\<close>

definition storeInIndexedDB :: "analytik \<Rightarrow> fp_data \<Rightarrow> analytik" where
  "storeInIndexedDB a d =
     (case indexedDB a of
        None \<Rightarrow> a
      | Some db \<Rightarrow> a\<lparr>indexedDB := Some (AList.update (fp_fingerprint d) d db)\<rparr>)"

text \<open>
  The four writes stand in one \<^verbatim>\<open>try\<close> block: the first backend that throws ends it, and
  the \<^verbatim>\<open>catch\<close> logs. Assigning \<^verbatim>\<open>document.cookie\<close> does not throw; with cookies
  disabled nothing is kept.
\<close>

definition storeFingerprintPersistently :: "(nat \<Rightarrow> nat) \<Rightarrow> analytik \<Rightarrow> analytik \<times> effect list" where
  "storeFingerprintPersistently now a =
     (let d = \<lparr>fp_fingerprint = fingerprint a, fp_label = fingerprintLabel a, fp_timestamp = now 0\<rparr> in
      case localStorage a of
        None \<Rightarrow> (a, [Log Error ''Failed to store fingerprint persistently''])
      | Some ls \<Rightarrow>
          let a1 = a\<lparr>localStorage := Some (ls\<lparr>da_fp := Some d\<rparr>)\<rparr> in
          (case sessionStorage a1 of
             None \<Rightarrow> (a1, [Log Error ''Failed to store fingerprint persistently''])
           | Some _ \<Rightarrow>
               let a2 = a1\<lparr>sessionStorage := Some (Some d)\<rparr>;
                   a3 = storeInIndexedDB a2 d;
                   a4 = a3\<lparr>cookie := (case cookie a3 of None \<Rightarrow> None | Some _ \<Rightarrow> Some (Some d))\<rparr>
               in (a4, [])))"

text \<open>
  The configuration that \<^verbatim>\<open>generateFingerprint\<close> reads, and the values of the six signal
  providers it may call. A provider's value is opaque; \<open>ser\<close> is \<^verbatim>\<open>JSON.stringify\<close> on it.
\<close>

record fingerprintConfig =
  enableFingerprinting :: bool
  fc_hardware :: bool
  fc_browser :: bool
  fc_canvas :: bool
  fc_webgl :: bool
  fc_audio :: bool
  fc_fonts :: bool
  fingerprintPersistence :: bool

record 'v signals =
  getHardwareFingerprint :: 'v
  getBrowserFingerprint :: 'v
  getCanvasFingerprint :: 'v
  getWebGLFingerprint :: 'v
  getAudioFingerprint :: 'v
  getFontFingerprint :: 'v

text \<open>The object \<^verbatim>\<open>components\<close> of lines 189 to 213, its keys in the order of insertion.\<close>

definition components :: "fingerprintConfig \<Rightarrow> 'v signals \<Rightarrow> (string \<times> 'v) list" where
  "components c p =
     (if fc_hardware c then [(''hardware'', getHardwareFingerprint p)] else []) @
     (if fc_browser c then [(''browser'', getBrowserFingerprint p)] else []) @
     (if fc_canvas c then [(''canvas'', getCanvasFingerprint p)] else []) @
     (if fc_webgl c then [(''webgl'', getWebGLFingerprint p)] else []) @
     (if fc_audio c then [(''audio'', getAudioFingerprint p)] else []) @
     (if fc_fonts c then [(''fonts'', getFontFingerprint p)] else [])"

fun joinWith :: "string \<Rightarrow> string list \<Rightarrow> string" where
  "joinWith sep [] = []"
| "joinWith sep [x] = x"
| "joinWith sep (x # y # ys) = x @ sep @ joinWith sep (y # ys)"

text \<open>
  \<^verbatim>\<open>JSON.stringify\<close> of an object whose keys need no escaping: the members in the order
  of the keys, nothing sorted.
\<close>

definition JSON_stringify :: "('v \<Rightarrow> string) \<Rightarrow> (string \<times> 'v) list \<Rightarrow> string" where
  "JSON_stringify ser obj =
     ''{'' @ joinWith '','' (map (\<lambda>(k, v). [CHR 0x22] @ k @ [CHR 0x22] @ '':'' @ ser v) obj) @ ''}''"

definition hexDigit :: "nat \<Rightarrow> char" where
  "hexDigit d = ''0123456789abcdef'' ! d"

definition toString16 :: "8 word \<Rightarrow> string" where
  "toString16 b =
     (if unat b < 16 then [hexDigit (unat b)]
      else [hexDigit (unat b div 16), hexDigit (unat b mod 16)])"

definition padStart2 :: "string \<Rightarrow> string" where
  "padStart2 s = replicate (2 - length s) CHR ''0'' @ s"

text \<open>
  \<open>digest\<close> is \<^verbatim>\<open>crypto.subtle.digest('SHA-256', new TextEncoder().encode(str))\<close> read as
  bytes, a function of the browser.
\<close>

definition hashString :: "(string \<Rightarrow> 8 word list) \<Rightarrow> string \<Rightarrow> string" where
  "hashString digest str = concat (map (\<lambda>b. padStart2 (toString16 b)) (digest str))"

definition generateFingerprint ::
  "(string \<Rightarrow> 8 word list) \<Rightarrow> ('v \<Rightarrow> string) \<Rightarrow> (nat \<Rightarrow> rat) \<Rightarrow> (nat \<Rightarrow> nat) \<Rightarrow> fingerprintConfig
     \<Rightarrow> 'v signals \<Rightarrow> analytik \<Rightarrow> analytik \<times> effect list"
where
  "generateFingerprint digest ser rnd now c p a =
     (if \<not> enableFingerprinting c then (a, [])
      else
        let fingerprintString = JSON_stringify ser (components c p);
            fp = hashString digest fingerprintString;
            a1 = a\<lparr>fingerprint := Some fp\<rparr>;
            (label, a2) = getFingerprintLabel rnd a1 fp;
            a3 = a2\<lparr>fingerprintLabel := Some label\<rparr>;
            (a4, effs) = (if fingerprintPersistence c then storeFingerprintPersistently now a3
                          else (a3, []))
        in (a4, effs @ [Log Info (''Device fingerprint generated: '' @ label @ '' ('' @ take 8 fp @ ''...)'')]))"

definition labelStore :: "fp_data option \<Rightarrow> (string \<times> string) list \<Rightarrow> local_store" where
  "labelStore d labels = emptyStore\<lparr>da_fp := d, da_labels := labels\<rparr>"

text \<open>The part of a bundle under one key, as a list of at most one member.\<close>

definition entry :: "(string \<rightharpoonup> 'v) \<Rightarrow> string \<Rightarrow> (string \<times> 'v) list" where
  "entry m k = (case m k of None \<Rightarrow> [] | Some v \<Rightarrow> [(k, v)])"


subsection \<open>Concrete identities\<close>

definition persisted :: fp_data where
  "persisted = \<lparr>fp_fingerprint = Some ''ab12'', fp_label = Some ''SuperLion1000'', fp_timestamp = 5\<rparr>"

definition toyDigest :: "string \<Rightarrow> 8 word list" where
  "toyDigest s = [of_nat (length s), 10, 255]"

definition someConfig :: fingerprintConfig where
  "someConfig = \<lparr>enableFingerprinting = True, fc_hardware = False, fc_browser = True,
                  fc_canvas = False, fc_webgl = False, fc_audio = False, fc_fonts = True,
                  fingerprintPersistence = True\<rparr>"

definition someSignals :: "string \<Rightarrow> string signals" where
  "someSignals hw = \<lparr>getHardwareFingerprint = hw, getBrowserFingerprint = ''2'',
                     getCanvasFingerprint = ''3'', getWebGLFingerprint = ''4'',
                     getAudioFingerprint = ''5'', getFontFingerprint = ''[]''\<rparr>"








subsection \<open>Delivery (lines 799 to 809, 952 to 1020, 522 to 529)\<close>

text \<open>
  The methods of the delivery pipeline are asynchronous. Each runs without interruption up
  to its next \<^verbatim>\<open>await\<close>; what is suspended there is a task: a single \<^verbatim>\<open>sendToDiscord\<close>
  awaiting its \<^verbatim>\<open>fetch\<close> on behalf of \<^verbatim>\<open>sendEvent\<close>, or a run of \<^verbatim>\<open>flushEventQueue\<close> that
  awaits the \<^verbatim>\<open>fetch\<close> of the current embed or the \<^verbatim>\<open>delay(100)\<close> after it, holding the
  rest of its batch. An embed is a value of the type \<open>'e\<close>. \<open>requests\<close> records the embeds
  handed to \<^verbatim>\<open>fetch\<close>, in order.
\<close>

datatype 'e task = SendSingle 'e | FlushSending 'e "'e list" | FlushDelay "'e list"

record 'e delivery =
  eventQueue :: "'e list"
  isOnline :: bool
  batchSize :: nat
  tasks :: "'e task list"
  requests :: "'e list"

text \<open>\<^verbatim>\<open>sendToDiscord\<close> up to \<^verbatim>\<open>await fetch(...)\<close>: the request is issued.\<close>

definition sendToDiscord :: "'e delivery \<Rightarrow> 'e \<Rightarrow> 'e delivery" where
  "sendToDiscord d emb = d\<lparr>requests := requests d @ [emb]\<rparr>"

text \<open>
  \<^verbatim>\<open>flushEventQueue\<close> up to its first \<^verbatim>\<open>await\<close>: the batch is spliced off the head of the
  queue and the request for its first embed is issued.
\<close>

definition flushEventQueue :: "'e delivery \<Rightarrow> 'e delivery" where
  "flushEventQueue d =
     (if length (eventQueue d) = 0 then d
      else
        let events = take (batchSize d) (eventQueue d);
            d1 = d\<lparr>eventQueue := drop (batchSize d) (eventQueue d)\<rparr>
        in case events of
             [] \<Rightarrow> d1
           | emb # rest \<Rightarrow>
               (let d2 = sendToDiscord d1 emb
                in d2\<lparr>tasks := tasks d2 @ [FlushSending emb rest]\<rparr>))"

definition queueEvent :: "'e delivery \<Rightarrow> 'e \<Rightarrow> 'e delivery" where
  "queueEvent d emb =
     (let d1 = d\<lparr>eventQueue := eventQueue d @ [emb]\<rparr>
      in if length (eventQueue d1) \<ge> batchSize d1 then flushEventQueue d1 else d1)"

text \<open>
  \<^verbatim>\<open>sendToDiscord\<close> after its \<^verbatim>\<open>await\<close>: \<open>ok\<close> is false when \<^verbatim>\<open>fetch\<close> rejected or the
  response was not \<^verbatim>\<open>ok\<close>, and the \<^verbatim>\<open>catch\<close> block of lines 986 to 993 runs.
\<close>

definition sendToDiscord_settled :: "bool \<Rightarrow> 'e delivery \<Rightarrow> 'e \<Rightarrow> 'e delivery" where
  "sendToDiscord_settled ok d emb =
     (if ok then d
      else if isOnline d then queueEvent d emb else d)"

definition flushOfflineEvents :: "'e delivery \<Rightarrow> 'e delivery" where
  "flushOfflineEvents d = (if length (eventQueue d) > 0 then flushEventQueue d else d)"

text \<open>
  \<^verbatim>\<open>sendEvent\<close> for the embed made of an observation; \<open>shouldSend\<close> is the verdict of
  \<^verbatim>\<open>shouldSendEvent\<close> (sampling and exclusions).
\<close>

definition sendEvent :: "'e delivery \<Rightarrow> bool \<Rightarrow> 'e \<Rightarrow> bool \<Rightarrow> 'e delivery" where
  "sendEvent d shouldSend emb priority =
     (if \<not> shouldSend then d
      else if priority \<or> isOnline d then
        (let d1 = sendToDiscord d emb in d1\<lparr>tasks := tasks d1 @ [SendSingle emb]\<rparr>)
      else queueEvent d emb)"

text \<open>
  What can happen next: an observation is submitted, the \<^verbatim>\<open>fetch\<close> of task \<open>i\<close> settles,
  the delay of task \<open>i\<close> ends, or the browser reports that it is online or offline.
\<close>

datatype 'e event =
    Submit 'e bool bool
  | FetchSettled nat bool
  | DelayEnded nat
  | Online
  | Offline

definition removeAt :: "nat \<Rightarrow> 'a list \<Rightarrow> 'a list" where
  "removeAt i xs = take i xs @ drop (Suc i) xs"

definition dispatch :: "'e delivery \<Rightarrow> 'e event \<Rightarrow> 'e delivery" where
  "dispatch d ev =
     (case ev of
        Submit emb shouldSend priority \<Rightarrow> sendEvent d shouldSend emb priority
      | FetchSettled i ok \<Rightarrow>
          (if i < length (tasks d) then
             (case tasks d ! i of
                SendSingle emb \<Rightarrow>
                  sendToDiscord_settled ok (d\<lparr>tasks := removeAt i (tasks d)\<rparr>) emb
              | FlushSending emb rest \<Rightarrow>
                  sendToDiscord_settled ok (d\<lparr>tasks := (tasks d)[i := FlushDelay rest]\<rparr>) emb
              | FlushDelay rest \<Rightarrow> d)
           else d)
      | DelayEnded i \<Rightarrow>
          (if i < length (tasks d) then
             (case tasks d ! i of
                FlushDelay rest \<Rightarrow>
                  (case rest of
                     [] \<Rightarrow> d\<lparr>tasks := removeAt i (tasks d)\<rparr>
                   | emb # rest' \<Rightarrow>
                       (let d1 = sendToDiscord d emb
                        in d1\<lparr>tasks := (tasks d1)[i := FlushSending emb rest']\<rparr>))
              | _ \<Rightarrow> d)
           else d)
      | Online \<Rightarrow> flushOfflineEvents (d\<lparr>isOnline := True\<rparr>)
      | Offline \<Rightarrow> d\<lparr>isOnline := False\<rparr>)"

definition run :: "'e delivery \<Rightarrow> 'e event list \<Rightarrow> 'e delivery" where
  "run d evs = foldl dispatch d evs"

text \<open>The embeds that suspended tasks still hold.\<close>

fun held :: "'e task \<Rightarrow> 'e list" where
  "held (SendSingle emb) = [emb]"
| "held (FlushSending emb rest) = emb # rest"
| "held (FlushDelay rest) = rest"

definition inFlight :: "'e delivery \<Rightarrow> 'e list" where
  "inFlight d = concat (map held (tasks d))"

text \<open>A client that starts with an empty queue and nothing in flight.\<close>

definition fresh :: "bool \<Rightarrow> nat \<Rightarrow> 'e delivery" where
  "fresh online n = \<lparr>eventQueue = [], isOnline = online, batchSize = n, tasks = [], requests = []\<rparr>"

section \<open>Properties\<close>

subsection \<open>Rounding to a double\<close>

text \<open>
  The rounded value is within half a unit of the last place, a relative error of at most
  \<open>1 / 2 ^ 53\<close>; rounding never crosses an integer below \<open>2 ^ 53\<close>; the largest double below 1
  is \<open>1 - 1 / 2 ^ 53\<close>.
\<close>

lemma roundHalfEven_floor_ceiling:
  "\<lfloor>z\<rfloor> \<le> roundHalfEven z \<and> roundHalfEven z \<le> \<lceil>z\<rceil>"
proof -
  have "\<lceil>z\<rceil> = \<lfloor>z\<rfloor> + 1" if "0 < z - of_int \<lfloor>z\<rfloor>"
    using that by (metis ceiling_altdef diff_gt_0_iff_gt less_irrefl)
  then show ?thesis
    unfolding roundHalfEven_def Let_def using floor_le_ceiling [of z] by auto
qed

lemma roundHalfEven_near:
  "z - 1 / 2 \<le> of_int (roundHalfEven z) \<and> of_int (roundHalfEven z) \<le> z + 1 / 2"
proof -
  define r where "r = z - of_int \<lfloor>z\<rfloor>"
  have r: "0 \<le> r" "r < 1" unfolding r_def by linarith+
  have z: "of_int \<lfloor>z\<rfloor> = z - r" unfolding r_def by simp
  consider "r < 1 / 2" | "1 / 2 < r" | "r = 1 / 2" by linarith
  then show ?thesis
  proof cases
    case 1
    then have "roundHalfEven z = \<lfloor>z\<rfloor>"
      by (simp add: roundHalfEven_def Let_def r_def)
    with 1 r z show ?thesis by simp
  next
    case 2
    then have "roundHalfEven z = \<lfloor>z\<rfloor> + 1"
      by (simp add: roundHalfEven_def Let_def r_def)
    with 2 r z show ?thesis by simp
  next
    case 3
    then have "roundHalfEven z = \<lfloor>z\<rfloor> \<or> roundHalfEven z = \<lfloor>z\<rfloor> + 1"
      by (simp add: roundHalfEven_def Let_def r_def)
    with 3 z show ?thesis by auto
  qed
qed

lemma roundHalfEven_ge: "of_int k \<le> z \<Longrightarrow> k \<le> roundHalfEven z"
proof -
  assume "of_int k \<le> z"
  then have "k \<le> \<lfloor>z\<rfloor>" by (simp only: le_floor_iff)
  with roundHalfEven_floor_ceiling [of z] show ?thesis by linarith
qed

lemma roundHalfEven_le: "z \<le> of_int k \<Longrightarrow> roundHalfEven z \<le> k"
proof -
  assume "z \<le> of_int k"
  then have "\<lceil>z\<rceil> \<le> k" by (simp only: ceiling_le_iff)
  with roundHalfEven_floor_ceiling [of z] show ?thesis by linarith
qed

lemma two_powi_neg: "0 \<le> b \<Longrightarrow> (2::rat) powi (- b) = 1 / 2 ^ nat b"
  by (simp add: power_int_minus_divide power_int_nonneg_exp)

lemma binExp_bounds:
  assumes "0 < x"
  shows "2 powi binExp x \<le> x \<and> x < 2 powi (binExp x + 1)"
proof (cases "1 \<le> x")
  case True
  let ?n = "\<lfloor>x\<rfloor>"
  let ?b = "bitlen ?n"
  have n: "0 < ?n" using True by simp
  from bitlen_bounds [OF n] have lo: "2 ^ nat (?b - 1) \<le> ?n" and hi: "?n < 2 ^ nat ?b"
    by simp_all
  have b: "1 \<le> ?b"
    using n bitlen_eq_zero_iff [of ?n] bitlen_nonneg [of ?n] by linarith
  have e: "binExp x = ?b - 1" using True by (simp add: binExp_def)
  have "(2::rat) powi (?b - 1) = 2 ^ nat (?b - 1)"
    using b by (simp add: power_int_nonneg_exp)
  also have "\<dots> = of_int (2 ^ nat (?b - 1))" by simp
  also have "\<dots> \<le> of_int ?n" using lo by (simp only: of_int_le_iff)
  also have "\<dots> \<le> x" by simp
  finally have 1: "2 powi binExp x \<le> x" by (simp only: e)
  have "?n + 1 \<le> 2 ^ nat ?b" using hi by simp
  then have "(of_int (?n + 1) :: rat) \<le> of_int (2 ^ nat ?b)" by (simp only: of_int_le_iff)
  moreover have "x < of_int (?n + 1)" by simp linarith
  ultimately have "x < of_int (2 ^ nat ?b)" by linarith
  also have "\<dots> = (2::rat) ^ nat ?b" by simp
  also have "\<dots> = 2 powi ?b" using b by (simp add: power_int_nonneg_exp)
  finally have 2: "x < 2 powi (binExp x + 1)" by (simp add: e)
  from 1 2 show ?thesis ..
next
  case False
  let ?y = "1 / x"
  let ?m = "\<lceil>?y\<rceil> - 1"
  let ?b = "bitlen ?m"
  from False assms have y: "1 < ?y" by simp
  then have "2 \<le> \<lceil>?y\<rceil>" by (simp add: less_ceiling_iff)
  then have m: "0 < ?m" by simp
  from bitlen_bounds [OF m] have lo: "2 ^ nat (?b - 1) \<le> ?m" and hi: "?m < 2 ^ nat ?b"
    by simp_all
  have b: "1 \<le> ?b"
    using m bitlen_eq_zero_iff [of ?m] bitlen_nonneg [of ?m] by linarith
  have e: "binExp x = - ?b" using False by (simp add: binExp_def)
  have my: "of_int ?m < ?y" "?y \<le> of_int ?m + 1"
    using ceiling_correct [of ?y] by simp_all
  have "?y \<le> of_int ?m + 1" by (rule my)
  also have "\<dots> = of_int (?m + 1)" by simp
  also have "\<dots> \<le> of_int (2 ^ nat ?b)" using hi by (simp only: of_int_le_iff)
  also have "\<dots> = (2::rat) ^ nat ?b" by simp
  finally have "1 / x \<le> 2 ^ nat ?b" .
  then have "1 / 2 ^ nat ?b \<le> x"
    using assms by (simp add: field_simps)
  then have 1: "2 powi binExp x \<le> x"
    using b by (simp add: e two_powi_neg)
  have "(2::rat) ^ nat (?b - 1) = of_int (2 ^ nat (?b - 1))" by simp
  also have "\<dots> \<le> of_int ?m" using lo by (simp only: of_int_le_iff)
  also have "\<dots> < ?y" by (rule my)
  finally have "2 ^ nat (?b - 1) < 1 / x" .
  then have "x < 1 / 2 ^ nat (?b - 1)"
    using assms by (simp add: field_simps)
  moreover have "(2::rat) powi (- ?b + 1) = 1 / 2 ^ nat (?b - 1)"
    using b two_powi_neg [of "?b - 1"] by simp
  ultimately have 2: "x < 2 powi (binExp x + 1)" by (simp add: e)
  from 1 2 show ?thesis ..
qed


lemma two_powi_less_D:
  assumes "(2::rat) powi m < 2 powi n"
  shows "m < n"
proof (rule ccontr)
  assume "\<not> m < n"
  then have "n \<le> m" by simp
  then have "(2::rat) powi n \<le> 2 powi m"
    by (rule power_int_increasing) simp
  with assms show False by simp
qed

lemma ulp_pos: "0 < (2::rat) powi (binExp x - 52)"
  by (simp add: zero_less_power_int)

lemma ulp_le:
  assumes "0 < x"
  shows "(2::rat) powi (binExp x - 52) \<le> x / 2 ^ 52"
proof -
  have "(2::rat) powi (binExp x - 52) = 2 powi binExp x / 2 ^ 52"
    by (simp add: power_int_diff)
  also have "\<dots> \<le> x / 2 ^ 52"
    using binExp_bounds [OF assms] by (simp add: divide_right_mono)
  finally show ?thesis .
qed

lemma roundDouble_pos:
  assumes "0 < x"
  shows "roundDouble x = of_int (roundHalfEven (x / 2 powi (binExp x - 52))) * 2 powi (binExp x - 52)"
  using assms by (simp add: roundDouble_def Let_def)

lemma roundDouble_error:
  assumes "0 < x"
  shows "\<bar>roundDouble x - x\<bar> \<le> x / 2 ^ 53"
proof -
  let ?u = "(2::rat) powi (binExp x - 52)"
  let ?m = "roundHalfEven (x / ?u)"
  have u: "0 < ?u" by (rule ulp_pos)
  have "\<bar>of_int ?m - x / ?u\<bar> \<le> 1 / 2"
    using roundHalfEven_near [of "x / ?u"] by linarith
  then have "\<bar>of_int ?m - x / ?u\<bar> * ?u \<le> 1 / 2 * ?u"
    using u by (simp only: mult_right_mono less_imp_le)
  moreover have "\<bar>of_int ?m - x / ?u\<bar> * ?u = \<bar>(of_int ?m - x / ?u) * ?u\<bar>"
    using u by (simp only: abs_mult abs_of_pos)
  moreover have "(of_int ?m - x / ?u) * ?u = of_int ?m * ?u - x"
    using u by (simp add: left_diff_distrib)
  ultimately have "\<bar>roundDouble x - x\<bar> \<le> ?u / 2"
    by (simp add: roundDouble_pos [OF assms])
  also have "\<dots> \<le> (x / 2 ^ 52) / 2"
    using ulp_le [OF assms] by simp
  finally show ?thesis by simp
qed

lemma binExp_le_52:
  assumes "0 < x" and "x < 2 ^ 53"
  shows "binExp x \<le> 52"
proof -
  have "(2::rat) powi binExp x < 2 powi 53"
    using binExp_bounds [OF assms(1)] assms(2) by simp
  then have "binExp x < 53"
    by (rule two_powi_less_D)
  then show ?thesis by simp
qed

lemma int_on_grid:
  assumes "e \<le> 52"
  shows "of_int k / (2::rat) powi (e - 52) = of_int (k * 2 ^ nat (52 - e))"
proof -
  have "(2::rat) powi (e - 52) = 1 / 2 powi (52 - e)"
    using power_int_minus_divide [of "2::rat" "52 - e"] by simp
  also have "(2::rat) powi (52 - e) = 2 ^ nat (52 - e)"
    using assms by (simp add: power_int_nonneg_exp)
  finally show ?thesis by simp
qed

lemma roundDouble_ge_int:
  assumes "0 < x" and "x < 2 ^ 53" and "of_int k \<le> x"
  shows "of_int k \<le> roundDouble x"
proof -
  let ?u = "(2::rat) powi (binExp x - 52)"
  have u: "0 < ?u" by (rule ulp_pos)
  have g: "of_int k / ?u = of_int (k * 2 ^ nat (52 - binExp x))"
    by (rule int_on_grid [OF binExp_le_52 [OF assms(1,2)]])
  have "of_int k / ?u \<le> x / ?u"
    using assms(3) u by (simp add: divide_right_mono)
  then have "k * 2 ^ nat (52 - binExp x) \<le> roundHalfEven (x / ?u)"
    unfolding g by (rule roundHalfEven_ge)
  then have "(of_int (k * 2 ^ nat (52 - binExp x)) :: rat) \<le> of_int (roundHalfEven (x / ?u))"
    by (simp only: of_int_le_iff)
  then have "of_int k / ?u \<le> of_int (roundHalfEven (x / ?u))"
    by (simp only: g)
  then have "of_int k \<le> of_int (roundHalfEven (x / ?u)) * ?u"
    using u by (simp add: pos_divide_le_eq)
  then show ?thesis
    by (simp only: roundDouble_pos [OF assms(1)])
qed

lemma roundDouble_le_int:
  assumes "0 < x" and "x < 2 ^ 53" and "x \<le> of_int k"
  shows "roundDouble x \<le> of_int k"
proof -
  let ?u = "(2::rat) powi (binExp x - 52)"
  have u: "0 < ?u" by (rule ulp_pos)
  have g: "of_int k / ?u = of_int (k * 2 ^ nat (52 - binExp x))"
    by (rule int_on_grid [OF binExp_le_52 [OF assms(1,2)]])
  have "x / ?u \<le> of_int k / ?u"
    using assms(3) u by (simp add: divide_right_mono)
  then have "roundHalfEven (x / ?u) \<le> k * 2 ^ nat (52 - binExp x)"
    unfolding g by (rule roundHalfEven_le)
  then have "(of_int (roundHalfEven (x / ?u)) :: rat) \<le> of_int (k * 2 ^ nat (52 - binExp x))"
    by (simp only: of_int_le_iff)
  then have "of_int (roundHalfEven (x / ?u)) \<le> of_int k / ?u"
    by (simp only: g)
  then have "of_int (roundHalfEven (x / ?u)) * ?u \<le> of_int k"
    using u by (simp add: pos_le_divide_eq)
  then show ?thesis
    by (simp only: roundDouble_pos [OF assms(1)])
qed

lemma double_below_one:
  assumes "roundDouble r = r" and "0 < r" and "r < 1"
  shows "r \<le> 1 - 1 / 2 ^ 53"
proof (cases "r < 1 / 2")
  case True
  then show ?thesis by simp
next
  case False
  have b: "2 powi binExp r \<le> r \<and> r < 2 powi (binExp r + 1)"
    by (rule binExp_bounds [OF assms(2)])
  have "(2::rat) powi binExp r < 2 powi 0"
    using b assms(3) by simp
  then have "binExp r < 0"
    by (rule two_powi_less_D)
  moreover have "(2::rat) powi (- 1) < 2 powi (binExp r + 1)"
    using b False by simp
  then have "- 1 < binExp r + 1"
    by (rule two_powi_less_D)
  ultimately have e: "binExp r = - 1" by simp
  let ?m = "roundHalfEven (r / 2 powi (- 53))"
  have r: "r = of_int ?m * 2 powi (- 53)"
    using roundDouble_pos [OF assms(2)] assms(1) by (simp add: e)
  have p: "(2::rat) powi (- 53) = 1 / 2 ^ 53" by simp
  have "of_int ?m < (2::rat) ^ 53"
    using assms(3) by (subst (asm) r) (simp add: p)
  then have "(of_int ?m :: rat) < of_int (2 ^ 53)" by simp
  then have "?m < 2 ^ 53" by (simp only: of_int_less_iff)
  then have "?m \<le> 2 ^ 53 - 1" by simp
  then have "(of_int ?m :: rat) \<le> of_int (2 ^ 53 - 1)" by (simp only: of_int_le_iff)
  then have "of_int ?m * (1 / 2 ^ 53) \<le> (of_int (2 ^ 53 - 1) :: rat) * (1 / 2 ^ 53)"
    by (rule mult_right_mono) simp
  then show ?thesis
    by (subst r) (simp add: p)
qed


subsection \<open>The hash of the A/B tests\<close>

lemma hashLoop_poly:
  "hashLoop h s = h * 31 ^ length s + word_of_int (polyHash s)"
proof (induction s arbitrary: h)
  case Nil
  then show ?case by (simp add: polyHash_def)
next
  case (Cons c cs)
  have p: "polyHash (c # cs) = of_char c * 31 ^ length cs + polyHash cs"
    by (simp add: polyHash_def sum.lessThan_Suc_shift del: sum.lessThan_Suc)
  have "push_bit 5 h - h = h * 31" for h :: "32 word"
    by (simp add: push_bit_eq_mult)
  then show ?case
    by (simp add: Cons.IH p of_int_of_char algebra_simps)
qed

lemma sint_hashLoop: "sint (hashLoop 0 s) = toInt32 (polyHash s)"
  by (simp add: hashLoop_poly toInt32_def sint_sbintrunc' signed_take_bit_eq_take_bit_shift take_bit_eq_mod)

lemma hashCode_poly: "hashCode s = roundDouble (of_int \<bar>toInt32 (polyHash s)\<bar> / 2147483647)"
proof (cases s)
  case Nil
  then show ?thesis by (simp add: hashCode_def polyHash_def toInt32_def roundDouble_def)
next
  case (Cons c cs)
  then show ?thesis by (simp only: hashCode_def sint_hashLoop) simp
qed

lemma toInt32_range: "- 2147483648 \<le> toInt32 x \<and> toInt32 x < 2147483648"
proof -
  have "0 \<le> (x + 2 ^ 31) mod (2 ^ 32 :: int)" "(x + 2 ^ 31) mod (2 ^ 32 :: int) < 2 ^ 32"
    by simp_all
  then show ?thesis unfolding toInt32_def by simp
qed

text \<open>The quotients of the hashes used below, rounded, and the values of \<^verbatim>\<open>hashCode\<close>.\<close>

lemma quotient_SuperLion1000lubricants:
  "roundDouble (240687061 / 2147483647) = 8076117625365087 / 72057594037927936"
  by code_simp


lemma quotient_QuickEagle2838lubricants:
  "roundDouble (1079786047 / 2147483647) = 4528950938185245 / 9007199254740992"
  by code_simp

lemma quotient_polygenelubricants:
  "roundDouble (2147483648 / 2147483647) = 2147483649 / 2147483648"
  by code_simp

lemma quotient_SuperLion1000t:
  "roundDouble (1869595710 / 2147483647) = 3920826384243697 / 4503599627370496"
  by code_simp

lemma quotient_SuperLion1000pricing:
  "roundDouble (365632496 / 2147483647) = 766786920608455 / 4503599627370496"
  by code_simp

lemma hashCode_SuperLion1000lubricants:
  "hashCode ''SuperLion1000lubricants'' = 8076117625365087 / 72057594037927936"
  by (simp add: hashCode_def quotient_SuperLion1000lubricants)


lemma hashCode_QuickEagle2838lubricants:
  "hashCode ''QuickEagle2838lubricants'' = 4528950938185245 / 9007199254740992"
  by (simp add: hashCode_def quotient_QuickEagle2838lubricants)

lemma hashCode_polygenelubricants:
  "hashCode ''polygenelubricants'' = 2147483649 / 2147483648"
  by (simp add: hashCode_def quotient_polygenelubricants)

lemma hashCode_SuperLion1000t:
  "hashCode ''SuperLion1000t'' = 3920826384243697 / 4503599627370496"
  by (simp add: hashCode_def quotient_SuperLion1000t)

lemma hashCode_SuperLion1000pricing:
  "hashCode ''SuperLion1000pricing'' = 766786920608455 / 4503599627370496"
  by (simp add: hashCode_def quotient_SuperLion1000pricing)


subsection \<open>Stickiness of an assignment\<close>






subsection \<open>The first assignment\<close>

lemma repeatGet_fixed:
  "getABTestVariant a t = Inr (x, a) \<Longrightarrow> repeatGet n a t = Inr (replicate n x, a)"
  by (induction n) simp_all

lemma getProp_Missing_iff:
  "getProp obj k = Missing \<longleftrightarrow> map_of obj k = None \<and> k \<notin> set objectPrototypeKeys"
  by (simp add: getProp_def split: option.splits)

lemma map_of_setProp_same:
  "k \<noteq> ''__proto__'' \<Longrightarrow> map_of (setProp obj k v) k = Some v"
  by (simp add: setProp_def update_conv')

lemma setProp_twice:
  "k \<noteq> ''__proto__'' \<Longrightarrow> setProp (setProp obj k v) k v = setProp obj k v"
  by (simp add: setProp_def)

lemma proto_in_keys: "''__proto__'' \<in> set objectPrototypeKeys"
  by (simp add: objectPrototypeKeys_def)

lemma assignVariant_Own:
  assumes "map_of (da_ab_tests ls) testName = Some test"
  shows "assignVariant a ls testName =
     (let variant = (if hashCode (labelString a @ testName) < trafficSplit test
                     then js_nth (variants test) 0 else js_nth (variants test) 1)
      in Inr (variant,
           a\<lparr>localStorage := Some (ls\<lparr>da_ab_assignments :=
              (case variant of
                 JString v \<Rightarrow> setProp (da_ab_assignments ls) (userKey a testName) v
               | _ \<Rightarrow> AList.delete (userKey a testName) (da_ab_assignments ls))\<rparr>)\<rparr>))"
  using assms by (simp add: assignVariant_def getProp_def Let_def)

text \<open>
  Claim C3, as the code has it. With no assignment stored under the client's key and the
  experiment defined, the variant is decided by the 32-bit polynomial hash of
  \<^verbatim>\<open>fingerprintLabel + testName\<close>: its absolute value is divided by 2147483647, the
  quotient is rounded to a double and compared with \<^verbatim>\<open>trafficSplit\<close>; below it the first
  entry of \<^verbatim>\<open>variants\<close> is selected, otherwise the second. The experiment definitions are
  unchanged and a selected variant is stored under the client's key.
\<close>

theorem getABTestVariant_first_assignment:
  assumes "localStorage a = Some ls"
    and "getProp (da_ab_assignments ls) (userKey a testName) = Missing"
    and "map_of (da_ab_tests ls) testName = Some test"
  shows "\<exists>ls'. getABTestVariant a testName =
           Inr (if roundDouble (of_int \<bar>toInt32 (polyHash (labelString a @ testName))\<bar> / 2147483647)
                     < trafficSplit test
                then js_nth (variants test) 0 else js_nth (variants test) 1,
                a\<lparr>localStorage := Some ls'\<rparr>)
         \<and> da_ab_tests ls' = da_ab_tests ls
         \<and> (\<forall>v. getABTestVariant a testName = Inr (JString v, a\<lparr>localStorage := Some ls'\<rparr>)
               \<longrightarrow> map_of (da_ab_assignments ls') (userKey a testName) = Some v)"
proof -
  let ?key = "userKey a testName"
  let ?variant = "if hashCode (labelString a @ testName) < trafficSplit test
                  then js_nth (variants test) 0 else js_nth (variants test) 1"
  let ?as = "case ?variant of JString v \<Rightarrow> setProp (da_ab_assignments ls) ?key v
             | _ \<Rightarrow> AList.delete ?key (da_ab_assignments ls)"
  let ?ls = "ls\<lparr>da_ab_assignments := ?as\<rparr>"
  have key: "?key \<noteq> ''__proto__''"
    using assms(2) proto_in_keys by (auto simp: getProp_Missing_iff)
  have get: "getABTestVariant a testName = Inr (?variant, a\<lparr>localStorage := Some ?ls\<rparr>)"
    using assms by (simp add: getABTestVariant_def assignVariant_Own Let_def)
  have stored: "map_of (da_ab_assignments ?ls) ?key = Some v" if "?variant = JString v" for v
    using that key by (simp add: map_of_setProp_same)
  show ?thesis
  proof (intro exI [of _ ?ls] conjI allI impI)
    show "getABTestVariant a testName =
           Inr (if roundDouble (of_int \<bar>toInt32 (polyHash (labelString a @ testName))\<bar> / 2147483647)
                     < trafficSplit test
                then js_nth (variants test) 0 else js_nth (variants test) 1,
                a\<lparr>localStorage := Some ?ls\<rparr>)"
      using get by (simp only: hashCode_poly)
    show "da_ab_tests ?ls = da_ab_tests ls" by simp
  next
    fix v
    assume "getABTestVariant a testName = Inr (JString v, a\<lparr>localStorage := Some ?ls\<rparr>)"
    with get have "?variant = JString v" by simp
    then show "map_of (da_ab_assignments ?ls) ?key = Some v" by (rule stored)
  qed
qed

theorem getABTestVariant_first_assignment_witness:
  "\<exists>ls'. getABTestVariant
           (client (Some ''ab12'') (Some ''SuperLion1000'')
              (Some (abStore [(''t'', \<lparr>variants = [''A'', ''B''], trafficSplit = 1 / 2, test_createdAt = 0\<rparr>)] [])))
           ''t''
         = Inr (JString ''B'',
             client (Some ''ab12'') (Some ''SuperLion1000'') (Some ls'))
       \<and> map_of (da_ab_assignments ls') ''SuperLion1000_t'' = Some ''B''"
proof -
  let ?test = "\<lparr>variants = [''A'', ''B''], trafficSplit = 1 / 2, test_createdAt = 0\<rparr>"
  let ?ls = "abStore [(''t'', ?test)] []"
  let ?a = "client (Some ''ab12'') (Some ''SuperLion1000'') (Some ?ls)"
  have 1: "localStorage ?a = Some ?ls" by (simp add: client_def)
  have 2: "getProp (da_ab_assignments ?ls) (userKey ?a ''t'') = Missing"
    by (simp add: abStore_def emptyStore_def getProp_def userKey_def objectPrototypeKeys_def
          client_def labelString_def)
  have 3: "map_of (da_ab_tests ?ls) ''t'' = Some ?test"
    by (simp add: abStore_def emptyStore_def)
  have h: "toInt32 (polyHash ''SuperLion1000t'') = 1869595710"
    by (simp add: sint_hashLoop [symmetric])
  have v: "(if roundDouble (of_int \<bar>toInt32 (polyHash (labelString ?a @ ''t''))\<bar> / 2147483647)
                  < trafficSplit ?test
             then js_nth (variants ?test) 0 else js_nth (variants ?test) 1) = JString ''B''"
    by (simp add: client_def labelString_def h js_nth_def quotient_SuperLion1000t)
  from getABTestVariant_first_assignment [OF 1 2 3] obtain ls'
    where g: "getABTestVariant ?a ''t'' = Inr (JString ''B'', ?a\<lparr>localStorage := Some ls'\<rparr>)"
      and s: "\<forall>v. getABTestVariant ?a ''t'' = Inr (JString v, ?a\<lparr>localStorage := Some ls'\<rparr>)
                \<longrightarrow> map_of (da_ab_assignments ls') (userKey ?a ''t'') = Some v"
    unfolding v by blast
  from s g have "map_of (da_ab_assignments ls') (userKey ?a ''t'') = Some ''B''"
    by blast
  then have m: "map_of (da_ab_assignments ls') ''SuperLion1000_t'' = Some ''B''"
    by (simp add: userKey_def labelString_def client_def)
  have c: "?a\<lparr>localStorage := Some ls'\<rparr> = client (Some ''ab12'') (Some ''SuperLion1000'') (Some ls')"
    by (simp add: client_def)
  show ?thesis
    using g m unfolding c by blast
qed


text \<open>
  Claim C3, as stated, fails. Two clients with the same fingerprint \<^verbatim>\<open>ab12\<close> and the
  same experiment, whose labels differ, are given different variants: the label is hashed,
  not the fingerprint. For the label \<^verbatim>\<open>polygene\<close> and the experiment \<^verbatim>\<open>lubricants\<close> the
  hash is \<open>- 2 ^ 31\<close> and the normalised value is the double \<open>1 + 1 / 2 ^ 31\<close>, outside the
  unit interval; no running sum of weights exceeds it, and the variant returned is the
  second one, not the first as a fallback.
\<close>

theorem getABTestVariant_selection_counterexample:
  "getABTestVariant
     (client (Some ''ab12'') (Some ''SuperLion1000'') (Some (abStore [(''lubricants'', twoVariantTest)] [])))
     ''lubricants''
   = Inr (JString ''A'',
       client (Some ''ab12'') (Some ''SuperLion1000'')
         (Some (abStore [(''lubricants'', twoVariantTest)] [(''SuperLion1000_lubricants'', ''A'')])))
   \<and> getABTestVariant
     (client (Some ''ab12'') (Some ''QuickEagle2838'') (Some (abStore [(''lubricants'', twoVariantTest)] [])))
     ''lubricants''
   = Inr (JString ''B'',
       client (Some ''ab12'') (Some ''QuickEagle2838'')
         (Some (abStore [(''lubricants'', twoVariantTest)] [(''QuickEagle2838_lubricants'', ''B'')])))
   \<and> getABTestVariant
     (client (Some ''ab12'') (Some ''polygene'') (Some (abStore [(''lubricants'', twoVariantTest)] [])))
     ''lubricants''
   = Inr (JString ''B'',
       client (Some ''ab12'') (Some ''polygene'')
         (Some (abStore [(''lubricants'', twoVariantTest)] [(''polygene_lubricants'', ''B'')])))
   \<and> hashCode ''polygenelubricants'' = 2147483649 / 2147483648
   \<and> \<not> hashCode ''polygenelubricants'' < 1"
  by (simp add: getABTestVariant_def assignVariant_def getProp_def setProp_def userKey_def
        labelString_def client_def abStore_def emptyStore_def twoVariantTest_def
        objectPrototypeKeys_def js_nth_def hashCode_SuperLion1000lubricants
        hashCode_QuickEagle2838lubricants hashCode_polygenelubricants)

text \<open>
  The rounding of the quotient decides a comparison. For the label \<^verbatim>\<open>SuperLion1000\<close> and
  the experiment \<^verbatim>\<open>pricing\<close> the quotient 365632496 / 2147483647 is below the double
  nearest to it; with that double as \<^verbatim>\<open>trafficSplit\<close> the test of line 3578 compares the
  double with itself and the second variant is selected.
\<close>

lemma getABTestVariant_rounded_quotient:
  "(365632496 / 2147483647 :: rat) < 766786920608455 / 4503599627370496
   \<and> hashCode ''SuperLion1000pricing'' = 766786920608455 / 4503599627370496
   \<and> getABTestVariant
     (client (Some ''ab12'') (Some ''SuperLion1000'')
        (Some (abStore [(''pricing'', \<lparr>variants = [''A'', ''B''],
                 trafficSplit = 766786920608455 / 4503599627370496, test_createdAt = 0\<rparr>)] [])))
     ''pricing''
   = Inr (JString ''B'',
       client (Some ''ab12'') (Some ''SuperLion1000'')
        (Some (abStore [(''pricing'', \<lparr>variants = [''A'', ''B''],
                 trafficSplit = 766786920608455 / 4503599627370496, test_createdAt = 0\<rparr>)]
           [(''SuperLion1000_pricing'', ''B'')])))"
  by (simp add: getABTestVariant_def assignVariant_def getProp_def setProp_def userKey_def
        labelString_def client_def abStore_def emptyStore_def
        objectPrototypeKeys_def js_nth_def hashCode_SuperLion1000pricing)

subsection \<open>The variant of a declared test\<close>

lemma createABTest_Inr:
  assumes "localStorage a = Some ls"
  shows "createABTest now a testName vs split =
     Inr (a\<lparr>localStorage := Some (ls\<lparr>da_ab_tests := setProp (da_ab_tests ls) testName
            \<lparr>variants = vs, trafficSplit = (case split of None \<Rightarrow> 1 / 2 | Some r \<Rightarrow> r),
             test_createdAt = now 0\<rparr>\<rparr>)\<rparr>,
          [SendEvent (ABTestCreated testName vs (case split of None \<Rightarrow> 1 / 2 | Some r \<Rightarrow> r)
             (fingerprintLabel a) (now 1))])"
  using assms by (simp add: createABTest_def Let_def)

lemma userKey_localStorage_update [simp]:
  "userKey (a\<lparr>localStorage := x\<rparr>) name = userKey a name"
  "labelString (a\<lparr>localStorage := x\<rparr>) = labelString a"
  by (simp_all add: userKey_def labelString_def)

lemma assignVariant_string:
  assumes "map_of (da_ab_tests ls) testName = Some test"
    and "(if hashCode (labelString a @ testName) < trafficSplit test
          then js_nth (variants test) 0 else js_nth (variants test) 1) = JString v"
  shows "assignVariant a ls testName =
     Inr (JString v, a\<lparr>localStorage := Some (ls\<lparr>da_ab_assignments :=
            setProp (da_ab_assignments ls) (userKey a testName) v\<rparr>)\<rparr>)"
  by (simp add: assignVariant_def getProp_def Let_def assms)

text \<open>
  Claim C10, as the code has it. For a test declared by \<^verbatim>\<open>createABTest\<close> with at least two
  variants, under a name other than \<^verbatim>\<open>__proto__\<close>, by a client with accessible storage and no
  assignment stored under its key: the first call of \<^verbatim>\<open>getABTestVariant\<close> returns one of the
  first two declared variants, a member of the list, and every later call returns the same one.
\<close>

theorem createABTest_variant_member:
  assumes "localStorage a = Some ls"
    and "testName \<noteq> ''__proto__''"
    and "getProp (da_ab_assignments ls) (userKey a testName) = Missing"
    and "2 \<le> length vs"
  shows "\<exists>a1 effs v a2.
           createABTest now a testName vs split = Inr (a1, effs)
         \<and> v \<in> {vs ! 0, vs ! 1} \<and> v \<in> set vs
         \<and> (\<forall>n. repeatGet (Suc n) a1 testName = Inr (replicate (Suc n) (JString v), a2))"
proof -
  let ?split = "case split of None \<Rightarrow> 1 / 2 | Some r \<Rightarrow> r"
  let ?test = "\<lparr>variants = vs, trafficSplit = ?split, test_createdAt = now 0\<rparr>"
  let ?ls1 = "ls\<lparr>da_ab_tests := setProp (da_ab_tests ls) testName ?test\<rparr>"
  let ?a1 = "a\<lparr>localStorage := Some ?ls1\<rparr>"
  let ?key = "userKey a testName"
  let ?v = "if hashCode (labelString a @ testName) < ?split then vs ! 0 else vs ! 1"
  let ?ls2 = "?ls1\<lparr>da_ab_assignments := setProp (da_ab_assignments ls) ?key ?v\<rparr>"
  let ?a2 = "a\<lparr>localStorage := Some ?ls2\<rparr>"
  have key: "?key \<noteq> ''__proto__''" and none: "map_of (da_ab_assignments ls) ?key = None"
    using assms(3) proto_in_keys by (auto simp: getProp_Missing_iff)
  have test1: "map_of (da_ab_tests ?ls1) testName = Some ?test"
    using assms(2) by (simp add: map_of_setProp_same)
  have sel: "(if hashCode (labelString a @ testName) < ?split then js_nth vs 0 else js_nth vs 1)
             = JString ?v"
  proof -
    from assms(4) have "0 < length vs" "Suc 0 < length vs" by auto
    then show ?thesis by (simp add: js_nth_def)
  qed
  have assign: "assignVariant (a\<lparr>localStorage := x\<rparr>) ls' testName = Inr (JString ?v,
       a\<lparr>localStorage := Some (ls'\<lparr>da_ab_assignments := setProp (da_ab_assignments ls') ?key ?v\<rparr>)\<rparr>)"
    if "da_ab_tests ls' = da_ab_tests ?ls1" for ls' x
  proof -
    have "map_of (da_ab_tests ls') testName = Some ?test"
      using test1 that by simp
    moreover have "(if hashCode (labelString (a\<lparr>localStorage := x\<rparr>) @ testName) < trafficSplit ?test
          then js_nth (variants ?test) 0 else js_nth (variants ?test) 1) = JString ?v"
      by (simp only: ab_test.select_convs userKey_localStorage_update sel)
    ultimately have "assignVariant (a\<lparr>localStorage := x\<rparr>) ls' testName =
      Inr (JString ?v, a\<lparr>localStorage := x\<rparr>\<lparr>localStorage := Some (ls'\<lparr>da_ab_assignments :=
            setProp (da_ab_assignments ls') (userKey (a\<lparr>localStorage := x\<rparr>) testName) ?v\<rparr>)\<rparr>)"
      by (rule assignVariant_string)
    then show ?thesis
      by (simp only: userKey_localStorage_update analytik.update_convs analytik.simps) simp
  qed
  have first: "getABTestVariant ?a1 testName = Inr (JString ?v, ?a2)"
    using assms(3) assign [of ?ls1 "Some ?ls1"] by (simp add: getABTestVariant_def)
  have stored: "map_of (da_ab_assignments ?ls2) ?key = Some ?v"
    using key by (simp add: map_of_setProp_same)
  have same: "?ls2\<lparr>da_ab_assignments := setProp (da_ab_assignments ?ls2) ?key ?v\<rparr> = ?ls2"
    using key by (simp add: setProp_twice)
  have again: "getABTestVariant ?a2 testName = Inr (JString ?v, ?a2)"
  proof (cases "?v = []")
    case False
    then show ?thesis
      using stored by (simp add: getABTestVariant_def getProp_def)
  next
    case True
    have "assignVariant ?a2 ?ls2 testName = Inr (JString ?v, ?a2)"
      using assign [of ?ls2 "Some ?ls2"] by (simp only: same) simp
    then show ?thesis
      using stored True by (simp add: getABTestVariant_def getProp_def)
  qed
  have rep: "repeatGet (Suc n) ?a1 testName = Inr (replicate (Suc n) (JString ?v), ?a2)" for n
    using first repeatGet_fixed [OF again, of n] by simp
  have "0 < length vs" "1 < length vs"
    using assms(4) by auto
  then have "vs ! 0 \<in> set vs" "vs ! 1 \<in> set vs"
    by (simp_all only: nth_mem)
  then have mem: "?v \<in> {vs ! 0, vs ! 1}" "?v \<in> set vs"
    by simp_all
  show ?thesis
    using createABTest_Inr [OF assms(1), of now testName vs split] mem rep by blast
qed


theorem createABTest_variant_member_witness:
  "\<exists>a1 effs v a2.
      createABTest (\<lambda>_. 0) (client (Some ''ab12'') (Some ''SuperLion1000'') (Some emptyStore))
        ''t'' [''A'', ''B''] None = Inr (a1, effs)
    \<and> v \<in> set [''A'', ''B'']
    \<and> repeatGet 2 a1 ''t'' = Inr ([JString v, JString v], a2)"
proof -
  let ?a = "client (Some ''ab12'') (Some ''SuperLion1000'') (Some emptyStore)"
  have 1: "localStorage ?a = Some emptyStore" by (simp add: client_def)
  have 2: "''t'' \<noteq> ''__proto__''" by simp
  have 3: "getProp (da_ab_assignments emptyStore) (userKey ?a ''t'') = Missing"
    by (simp add: emptyStore_def getProp_def userKey_def objectPrototypeKeys_def
          client_def labelString_def)
  have 4: "2 \<le> length [''A'', ''B'']" by simp
  from createABTest_variant_member [OF 1 2 3 4, of "\<lambda>_. 0" None]
  obtain a1 effs v a2
    where c: "createABTest (\<lambda>_. 0) ?a ''t'' [''A'', ''B''] None = Inr (a1, effs)"
      and m: "v \<in> set [''A'', ''B'']"
      and r: "\<forall>n. repeatGet (Suc n) a1 ''t'' = Inr (replicate (Suc n) (JString v), a2)"
    by blast
  from r have "repeatGet (Suc (Suc 0)) a1 ''t'' = Inr (replicate (Suc (Suc 0)) (JString v), a2)"
    by blast
  then have "repeatGet 2 a1 ''t'' = Inr ([JString v, JString v], a2)"
    by (simp only: numeral_2_eq_2 replicate.simps)
  with c m show ?thesis by blast
qed

text \<open>
  Claim C10, as stated, fails for a test declared with one variant: the hash of
  \<^verbatim>\<open>SuperLion1000t\<close> is not below the default split, line 3578 reads \<^verbatim>\<open>variants[1]\<close>,
  and the call returns \<^verbatim>\<open>undefined\<close> and stores nothing.
\<close>

theorem getABTestVariant_single_variant_counterexample:
  "createABTest (\<lambda>_. 0) (client (Some ''ab12'') (Some ''SuperLion1000'') (Some emptyStore))
     ''t'' [''only''] None
   = Inr (client (Some ''ab12'') (Some ''SuperLion1000'')
            (Some (abStore [(''t'', \<lparr>variants = [''only''], trafficSplit = 1 / 2, test_createdAt = 0\<rparr>)] [])),
          [SendEvent (ABTestCreated ''t'' [''only''] (1 / 2) (Some ''SuperLion1000'') 0)])
   \<and> getABTestVariant
       (client (Some ''ab12'') (Some ''SuperLion1000'')
            (Some (abStore [(''t'', \<lparr>variants = [''only''], trafficSplit = 1 / 2, test_createdAt = 0\<rparr>)] [])))
       ''t''
   = Inr (JUndefined,
       client (Some ''ab12'') (Some ''SuperLion1000'')
            (Some (abStore [(''t'', \<lparr>variants = [''only''], trafficSplit = 1 / 2, test_createdAt = 0\<rparr>)] [])))"
  by (simp add: createABTest_def getABTestVariant_def assignVariant_def getProp_def setProp_def
        userKey_def labelString_def client_def abStore_def emptyStore_def
        objectPrototypeKeys_def hashCode_SuperLion1000t js_nth_def Let_def)


subsection \<open>Funnel steps\<close>

lemma indexOf_Some_iff: "(\<exists>i. indexOf ys x = Some i) \<longleftrightarrow> x \<in> set ys"
  by (induction ys) auto

lemma indexOf_None_iff: "indexOf ys x = None \<longleftrightarrow> x \<notin> set ys"
  by (induction ys) auto

text \<open>
  Claim C6, as the code has it. When \<^verbatim>\<open>trackFunnelStep\<close> is called for a step that the
  progress of this client and funnel already records, one more entry with the new
  timestamp is appended to the stored steps: the earlier entries, and with them the
  timestamp of the first completion, stay in front of it. The observation sent is of type
  \<^verbatim>\<open>funnel_completed\<close> exactly when every step of the funnel was already recorded, so a
  completed funnel reports its completion again at every such call.
\<close>

theorem trackFunnelStep_repeat:
  assumes "localStorage a = Some ls"
    and "map_of (da_funnels ls) funnelName = Some fnl"
    and "stepName \<in> set (funnel_steps fnl)"
    and "map_of (da_user_funnels ls) (userKey a funnelName) = Some uf"
    and "stepName \<in> step ` set (steps uf)"
  shows "\<exists>ls' ev.
           trackFunnelStep now a funnelName stepName props
             = Inr (a\<lparr>localStorage := Some ls'\<rparr>, [SendEvent (FunnelEvent ev)])
         \<and> map_of (da_user_funnels ls') (userKey a funnelName)
             = Some (uf\<lparr>steps := steps uf @ [\<lparr>step = stepName, timestamp = now 0, properties = props\<rparr>]\<rparr>)
         \<and> da_funnels ls' = da_funnels ls
         \<and> (ev_type ev = ''funnel_completed'') = (set (funnel_steps fnl) \<subseteq> step ` set (steps uf))
         \<and> (ev_type ev = ''funnel_step'') = (\<not> set (funnel_steps fnl) \<subseteq> step ` set (steps uf))"
proof -
  let ?key = "userKey a funnelName"
  let ?uf = "uf\<lparr>steps := steps uf @ [\<lparr>step = stepName, timestamp = now 0, properties = props\<rparr>]\<rparr>"
  obtain i where i: "indexOf (funnel_steps fnl) stepName = Some i"
    using assms(3) indexOf_Some_iff by blast
  have own: "getProp (da_user_funnels ls) ?key = Own uf" "getProp (da_funnels ls) funnelName = Own fnl"
    using assms by (simp_all add: getProp_def)
  have set: "setProp (da_user_funnels ls) ?key ?uf = AList.update ?key ?uf (da_user_funnels ls)"
    using assms(4) by (simp add: setProp_def)
  have track: "trackFunnelStep now a funnelName stepName props
      = Inr (recordStep now 0 a ls fnl funnelName stepName i props uf)"
    using assms(1) own i by (simp add: trackFunnelStep_def)
  have complete: "list_all (\<lambda>s. s \<in> set (map step (steps ?uf))) (funnel_steps fnl)
      \<longleftrightarrow> set (funnel_steps fnl) \<subseteq> step ` set (steps uf)"
    using assms(5) by (auto simp: list_all_iff)
  show ?thesis
    unfolding track recordStep_def Let_def set complete
    by (intro exI conjI) (rule refl, simp_all add: update_conv')
qed


theorem trackFunnelStep_repeat_witness:
  "\<exists>ls' ev.
     trackFunnelStep (\<lambda>_. 20)
       (client (Some ''ab12'') (Some ''SuperLion1000'')
          (Some (funnelStore [(''f'', \<lparr>funnel_steps = [''a''], funnel_createdAt = 0\<rparr>)]
             [(''SuperLion1000_f'',
               \<lparr>startedAt = 10, steps = [\<lparr>step = ''a'', timestamp = 10, properties = ''{}''\<rparr>]\<rparr>)])))
       ''f'' ''a'' ''{}''
     = Inr (client (Some ''ab12'') (Some ''SuperLion1000'') (Some ls'), [SendEvent (FunnelEvent ev)])
   \<and> map_of (da_user_funnels ls') ''SuperLion1000_f''
     = Some \<lparr>startedAt = 10,
             steps = [\<lparr>step = ''a'', timestamp = 10, properties = ''{}''\<rparr>,
                      \<lparr>step = ''a'', timestamp = 20, properties = ''{}''\<rparr>]\<rparr>
   \<and> ev_type ev = ''funnel_completed''"
proof -
  let ?fnl = "\<lparr>funnel_steps = [''a''], funnel_createdAt = 0\<rparr>"
  let ?uf = "\<lparr>startedAt = 10, steps = [\<lparr>step = ''a'', timestamp = 10, properties = ''{}''\<rparr>]\<rparr>"
  let ?ls = "funnelStore [(''f'', ?fnl)] [(''SuperLion1000_f'', ?uf)]"
  let ?a = "client (Some ''ab12'') (Some ''SuperLion1000'') (Some ?ls)"
  have 1: "localStorage ?a = Some ?ls" by (simp add: client_def)
  have 2: "map_of (da_funnels ?ls) ''f'' = Some ?fnl" by (simp add: funnelStore_def emptyStore_def)
  have 3: "''a'' \<in> set (funnel_steps ?fnl)" by simp
  have k: "userKey ?a ''f'' = ''SuperLion1000_f''"
    by (simp add: userKey_def labelString_def client_def)
  have 4: "map_of (da_user_funnels ?ls) (userKey ?a ''f'') = Some ?uf"
    unfolding k by (simp add: funnelStore_def emptyStore_def)
  have 5: "''a'' \<in> step ` set (steps ?uf)" by simp
  from trackFunnelStep_repeat [OF 1 2 3 4 5, of "\<lambda>_. 20" "''{}''"]
  obtain ls' ev
    where t: "trackFunnelStep (\<lambda>_. 20) ?a ''f'' ''a'' ''{}''
               = Inr (?a\<lparr>localStorage := Some ls'\<rparr>, [SendEvent (FunnelEvent ev)])"
      and m: "map_of (da_user_funnels ls') (userKey ?a ''f'')
               = Some (?uf\<lparr>steps := steps ?uf @ [\<lparr>step = ''a'', timestamp = 20, properties = ''{}''\<rparr>]\<rparr>)"
      and e: "(ev_type ev = ''funnel_completed'') = (set (funnel_steps ?fnl) \<subseteq> step ` set (steps ?uf))"
    by blast
  have c: "?a\<lparr>localStorage := Some ls'\<rparr> = client (Some ''ab12'') (Some ''SuperLion1000'') (Some ls')"
    by (simp add: client_def)
  from e have e': "ev_type ev = ''funnel_completed''" by simp
  from m have m': "map_of (da_user_funnels ls') ''SuperLion1000_f''
     = Some \<lparr>startedAt = 10,
             steps = [\<lparr>step = ''a'', timestamp = 10, properties = ''{}''\<rparr>,
                      \<lparr>step = ''a'', timestamp = 20, properties = ''{}''\<rparr>]\<rparr>"
    unfolding k by simp
  show ?thesis
    using t m' e' unfolding c by blast
qed

text \<open>
  Claim C6, as stated, fails. For a funnel of the single step \<^verbatim>\<open>a\<close>, the first call at
  time 10 stores one entry and sends \<^verbatim>\<open>funnel_completed\<close>; the second call at time 20 is
  no no-op, it stores a second entry, and it sends \<^verbatim>\<open>funnel_completed\<close> a second time.
\<close>

theorem trackFunnelStep_repeat_counterexample:
  "trackFunnelStep (\<lambda>_. 10)
     (client (Some ''ab12'') (Some ''SuperLion1000'')
        (Some (funnelStore [(''f'', \<lparr>funnel_steps = [''a''], funnel_createdAt = 0\<rparr>)] [])))
     ''f'' ''a'' ''{}''
   = Inr (client (Some ''ab12'') (Some ''SuperLion1000'')
            (Some (funnelStore [(''f'', \<lparr>funnel_steps = [''a''], funnel_createdAt = 0\<rparr>)]
               [(''SuperLion1000_f'',
                 \<lparr>startedAt = 10, steps = [\<lparr>step = ''a'', timestamp = 10, properties = ''{}''\<rparr>]\<rparr>)])),
          [SendEvent (FunnelEvent
             \<lparr>ev_type = ''funnel_completed'', ev_funnelName = ''f'', ev_stepName = ''a'',
              ev_stepIndex = 0, ev_totalSteps = 1, ev_completed = True, ev_properties = ''{}'',
              ev_fingerprint = Some ''SuperLion1000'', ev_timestamp = 10\<rparr>)])
   \<and> trackFunnelStep (\<lambda>_. 20)
     (client (Some ''ab12'') (Some ''SuperLion1000'')
        (Some (funnelStore [(''f'', \<lparr>funnel_steps = [''a''], funnel_createdAt = 0\<rparr>)]
           [(''SuperLion1000_f'',
             \<lparr>startedAt = 10, steps = [\<lparr>step = ''a'', timestamp = 10, properties = ''{}''\<rparr>]\<rparr>)])))
     ''f'' ''a'' ''{}''
   = Inr (client (Some ''ab12'') (Some ''SuperLion1000'')
            (Some (funnelStore [(''f'', \<lparr>funnel_steps = [''a''], funnel_createdAt = 0\<rparr>)]
               [(''SuperLion1000_f'',
                 \<lparr>startedAt = 10,
                  steps = [\<lparr>step = ''a'', timestamp = 10, properties = ''{}''\<rparr>,
                           \<lparr>step = ''a'', timestamp = 20, properties = ''{}''\<rparr>]\<rparr>)])),
          [SendEvent (FunnelEvent
             \<lparr>ev_type = ''funnel_completed'', ev_funnelName = ''f'', ev_stepName = ''a'',
              ev_stepIndex = 0, ev_totalSteps = 1, ev_completed = True, ev_properties = ''{}'',
              ev_fingerprint = Some ''SuperLion1000'', ev_timestamp = 20\<rparr>)])"
  by (simp add: trackFunnelStep_def recordStep_def getProp_def setProp_def userKey_def
        labelString_def client_def funnelStore_def emptyStore_def objectPrototypeKeys_def Let_def)

subsection \<open>Unknown names\<close>

text \<open>
  A name that is neither an own property of the stored object nor a member of
  \<^verbatim>\<open>Object.prototype\<close> is reported and ignored.
\<close>

lemma trackFunnelStep_unknown_funnel:
  assumes "localStorage a = Some ls" and "getProp (da_funnels ls) funnelName = Missing"
  shows "trackFunnelStep now a funnelName stepName props
           = Inr (a, [Log Warn (''Funnel not found: '' @ funnelName)])"
  using assms by (simp add: trackFunnelStep_def)

lemma trackFunnelStep_unknown_step:
  assumes "localStorage a = Some ls" and "map_of (da_funnels ls) funnelName = Some fnl"
    and "stepName \<notin> set (funnel_steps fnl)"
  shows "trackFunnelStep now a funnelName stepName props
           = Inr (a, [Log Warn (''Step not found in funnel '' @ funnelName @ '': '' @ stepName)])"
  using assms by (simp add: trackFunnelStep_def getProp_def indexOf_None_iff [symmetric])

lemma getABTestVariant_unknown_test:
  assumes "localStorage a = Some ls" and "getProp (da_ab_tests ls) testName = Missing"
    and "getProp (da_ab_assignments ls) (userKey a testName) = Missing"
  shows "getABTestVariant a testName = Inr (JNull, a)"
  using assms by (simp add: getABTestVariant_def assignVariant_def)

text \<open>
  Claim C8 at the names the lookup of lines 3627 and 3574 does find without their having
  been declared. No funnel and no test was ever created, yet \<^verbatim>\<open>funnels['constructor']\<close> is
  the inherited \<^verbatim>\<open>Object\<close> function, which has no \<^verbatim>\<open>steps\<close> and no \<^verbatim>\<open>variants\<close>: both calls
  end in a \<^verbatim>\<open>TypeError\<close> instead of a warning or \<^verbatim>\<open>null\<close>. Neither method guards its
  reads of \<^verbatim>\<open>localStorage\<close>, so an inaccessible store throws out of them as well.
\<close>

theorem unknown_name_throws:
  "trackFunnelStep (\<lambda>_. 0) (client (Some ''ab12'') (Some ''SuperLion1000'') (Some emptyStore))
     ''constructor'' ''view'' ''{}'' = Inl TypeError
   \<and> getABTestVariant (client (Some ''ab12'') (Some ''SuperLion1000'') (Some emptyStore))
     ''constructor'' = Inl TypeError
   \<and> trackFunnelStep (\<lambda>_. 0) (client (Some ''ab12'') (Some ''SuperLion1000'') None)
     ''checkout'' ''view'' ''{}'' = Inl StorageError
   \<and> getABTestVariant (client (Some ''ab12'') (Some ''SuperLion1000'') None)
     ''pricing'' = Inl StorageError"
  by (simp add: trackFunnelStep_def getABTestVariant_def assignVariant_def getProp_def userKey_def
        labelString_def client_def emptyStore_def objectPrototypeKeys_def)


subsection \<open>Generating a label\<close>

lemma floorMul_zero: "floorMul 0 n = 0"
  by (simp add: floorMul_def roundDouble_def)

lemma floorMul_less:
  assumes "roundDouble r = r" and "0 \<le> r" and "r < 1" and "0 < n"
  shows "floorMul r n < n"
proof (cases "r = 0")
  case True
  with assms(4) show ?thesis by (simp add: floorMul_zero)
next
  case False
  with assms(2) have r: "0 < r" by simp
  let ?x = "r * of_nat n"
  have x: "0 < ?x" using r assms(4) by simp
  have r1: "r \<le> 1 - 1 / 2 ^ 53" by (rule double_below_one [OF assms(1) r assms(3)])
  have "roundDouble ?x \<le> ?x + ?x / 2 ^ 53"
    using roundDouble_error [OF x] by linarith
  also have "\<dots> = r * (of_nat n * (1 + 1 / 2 ^ 53))" by (simp add: algebra_simps)
  also have "\<dots> \<le> (1 - 1 / 2 ^ 53) * (of_nat n * (1 + 1 / 2 ^ 53))"
    using r1 by (rule mult_right_mono) simp
  also have "\<dots> = of_nat n * (1 - 1 / 2 ^ 106)" by (simp add: algebra_simps)
  also have "\<dots> < of_nat n" using assms(4) by simp
  finally have "roundDouble ?x < of_nat n" .
  then have "\<lfloor>roundDouble ?x\<rfloor> < int n" by (simp add: floor_less_iff)
  then have "nat \<lfloor>roundDouble ?x\<rfloor> < n" using assms(4) by linarith
  then show ?thesis by (simp only: floorMul_def)
qed

lemma floorMul_interval:
  assumes "0 \<le> r" and "r < 1" and "n < 2 ^ 53" and "floorMul r n = i"
  shows "of_nat i \<le> r * of_nat n * (1 + 1 / 2 ^ 53) \<and> r * of_nat n < of_nat i + 1"
proof (cases "r * of_nat n = 0")
  case True
  then have "floorMul r n = 0" by (simp add: floorMul_def roundDouble_def)
  with assms(4) have "i = 0" by simp
  show ?thesis unfolding True \<open>i = 0\<close> by simp
next
  case False
  let ?x = "r * of_nat n"
  have "0 \<le> ?x" using assms(1) by simp
  with False have x: "0 < ?x" by (metis order_less_le)
  have n0: "0 < (of_nat n :: rat)" using x assms(1) by (simp add: zero_less_mult_iff)
  have "(of_nat n :: rat) < of_nat (2 ^ 53)" using assms(3) by (simp only: of_nat_less_iff)
  then have n53: "(of_nat n :: rat) < 2 ^ 53" by simp
  have "?x < 1 * of_nat n" using assms(2) n0 by (rule mult_strict_right_mono)
  with n53 have x53: "?x < 2 ^ 53" by simp
  have fl0: "0 \<le> roundDouble ?x"
    using roundDouble_ge_int [OF x x53, of 0] x by simp
  have "0 \<le> \<lfloor>roundDouble ?x\<rfloor>" using fl0 by simp
  moreover have "nat \<lfloor>roundDouble ?x\<rfloor> = i" using assms(4) by (simp only: floorMul_def)
  ultimately have i: "\<lfloor>roundDouble ?x\<rfloor> = int i" by linarith
  have lo: "of_nat i \<le> roundDouble ?x"
    using of_int_floor_le [of "roundDouble ?x"] by (simp only: i of_int_of_nat_eq)
  have hi: "roundDouble ?x < of_nat i + 1"
    using floor_correct [of "roundDouble ?x"] by (simp only: i of_int_of_nat_eq of_int_add of_int_1)
  have "roundDouble ?x \<le> ?x + ?x / 2 ^ 53"
    using roundDouble_error [OF x] by linarith
  with lo have 1: "of_nat i \<le> ?x * (1 + 1 / 2 ^ 53)" by (simp add: algebra_simps)
  have 2: "?x < of_nat i + 1"
  proof (rule ccontr)
    assume "\<not> ?x < of_nat i + 1"
    then have "of_int (int i + 1) \<le> ?x" by simp
    from roundDouble_ge_int [OF x x53 this] hi show False by simp
  qed
  from 1 2 show ?thesis ..
qed

lemma floorMul_eqI:
  assumes "0 \<le> r" and "r < 1" and "n < 2 ^ 53"
    and "of_nat i \<le> r * of_nat n" and "r * of_nat n * (1 + 1 / 2 ^ 53) < of_nat i + 1"
  shows "floorMul r n = i"
proof (cases "r * of_nat n = 0")
  case True
  with assms(4) have "i = 0" by simp
  moreover have "floorMul r n = 0" using True by (simp add: floorMul_def roundDouble_def)
  ultimately show ?thesis by simp
next
  case False
  let ?x = "r * of_nat n"
  have "0 \<le> ?x" using assms(1) by simp
  with False have x: "0 < ?x" by (metis order_less_le)
  have n0: "0 < (of_nat n :: rat)" using x assms(1) by (simp add: zero_less_mult_iff)
  have "(of_nat n :: rat) < of_nat (2 ^ 53)" using assms(3) by (simp only: of_nat_less_iff)
  then have n53: "(of_nat n :: rat) < 2 ^ 53" by simp
  have "?x < 1 * of_nat n" using assms(2) n0 by (rule mult_strict_right_mono)
  with n53 have x53: "?x < 2 ^ 53" by simp
  have "of_int (int i) \<le> ?x" using assms(4) by simp
  from roundDouble_ge_int [OF x x53 this] have lo: "of_int (int i) \<le> roundDouble ?x" .
  have "roundDouble ?x \<le> ?x + ?x / 2 ^ 53"
    using roundDouble_error [OF x] by linarith
  also have "\<dots> = ?x * (1 + 1 / 2 ^ 53)" by (simp add: algebra_simps)
  also have "\<dots> < of_nat i + 1" by (rule assms(5))
  finally have hi: "roundDouble ?x < of_int (int i) + 1" by simp
  from lo hi have "\<lfloor>roundDouble ?x\<rfloor> = int i" by (simp only: floor_eq_iff)
  then show ?thesis by (simp add: floorMul_def)
qed

text \<open>
  The double nearest to 0.95 is below 0.95 and its product with 20 is below 19; the product
  is rounded to 19 and line 389 selects the last adjective.
\<close>

lemma floorMul_rounds_up:
  "floorMul (4278419646001971 / 4503599627370496) 20 = 19
   \<and> (4278419646001971 / 4503599627370496 :: rat) * 20 < 19
   \<and> roundDouble (4278419646001971 / 4503599627370496) = 4278419646001971 / 4503599627370496"
proof (intro conjI)
  show "floorMul (4278419646001971 / 4503599627370496) 20 = 19" by code_simp
  show "(4278419646001971 / 4503599627370496 :: rat) * 20 < 19" by simp
  show "roundDouble (4278419646001971 / 4503599627370496) = 4278419646001971 / 4503599627370496"
    by code_simp
qed

lemma showNat_four:
  assumes "1000 \<le> n" "n \<le> 9999"
  shows "showNat n = [digitChar (n div 1000), digitChar (n div 100 mod 10),
                      digitChar (n div 10 mod 10), digitChar (n mod 10)]"
proof -
  have a: "\<not> n < 10" "\<not> n div 10 < 10" "\<not> n div 10 div 10 < 10" "n div 10 div 10 div 10 < 10"
    using assms by simp_all
  have "showNat n = showNat (n div 10) @ [digitChar (n mod 10)]"
    using a(1) by (subst showNat.simps) simp
  also have "showNat (n div 10) = showNat (n div 10 div 10) @ [digitChar (n div 10 mod 10)]"
    using a(2) by (subst showNat.simps) simp
  also have "showNat (n div 10 div 10) = showNat (n div 10 div 10 div 10) @ [digitChar (n div 10 div 10 mod 10)]"
    using a(3) by (subst showNat.simps) simp
  also have "showNat (n div 10 div 10 div 10) = [digitChar (n div 10 div 10 div 10)]"
    using a(4) by (subst showNat.simps) simp
  finally show ?thesis
    by (simp add: div_mult2_eq [symmetric])
qed

lemma digitChar_digit: "d < 10 \<Longrightarrow> digitChar d \<in> set ''0123456789''"
  unfolding digitChar_def by (rule nth_mem) simp

lemma showNat_four_digits:
  assumes "1000 \<le> n" "n \<le> 9999"
  shows "length (showNat n) = 4 \<and> set (showNat n) \<subseteq> set ''0123456789''"
proof -
  have "n div 1000 < 10" using assms by simp
  then show ?thesis
    unfolding showNat_four [OF assms]
    using digitChar_digit [of "n div 1000"] digitChar_digit [of "n div 100 mod 10"]
      digitChar_digit [of "n div 10 mod 10"] digitChar_digit [of "n mod 10"]
    by simp
qed

lemma length_words: "length ADJECTIVES = 20" "length ANIMALS = 20"
  by (simp_all add: ADJECTIVES_def ANIMALS_def)

lemma candidate_form:
  assumes "\<forall>i. roundDouble (rnd i) = rnd i \<and> 0 \<le> rnd i \<and> rnd i < 1"
  shows "\<exists>i j m. i < 20 \<and> j < 20 \<and> 1000 \<le> m \<and> m \<le> 9999
          \<and> candidate rnd k = ADJECTIVES ! i @ ANIMALS ! j @ showNat m
          \<and> of_nat i \<le> rnd (3 * k) * 20 * (1 + 1 / 2 ^ 53) \<and> rnd (3 * k) * 20 < of_nat i + 1
          \<and> of_nat j \<le> rnd (3 * k + 1) * 20 * (1 + 1 / 2 ^ 53)
          \<and> rnd (3 * k + 1) * 20 < of_nat j + 1
          \<and> of_nat m - 1000 \<le> rnd (3 * k + 2) * 9000 * (1 + 1 / 2 ^ 53)
          \<and> rnd (3 * k + 2) * 9000 < of_nat m - 999"
proof -
  let ?i = "floorMul (rnd (3 * k)) 20"
  let ?j = "floorMul (rnd (3 * k + 1)) 20"
  let ?q = "floorMul (rnd (3 * k + 2)) 9000"
  have d: "roundDouble (rnd (3 * k)) = rnd (3 * k)" "roundDouble (rnd (3 * k + 1)) = rnd (3 * k + 1)"
    "roundDouble (rnd (3 * k + 2)) = rnd (3 * k + 2)"
    using assms by simp_all
  have r: "0 \<le> rnd (3 * k)" "rnd (3 * k) < 1" "0 \<le> rnd (3 * k + 1)" "rnd (3 * k + 1) < 1"
    "0 \<le> rnd (3 * k + 2)" "rnd (3 * k + 2) < 1"
    using assms by simp_all
  have i: "?i < 20" by (rule floorMul_less [OF d(1) r(1,2)]) simp
  have j: "?j < 20" by (rule floorMul_less [OF d(2) r(3,4)]) simp
  have q: "?q < 9000" by (rule floorMul_less [OF d(3) r(5,6)]) simp
  have c: "candidate rnd k = ADJECTIVES ! ?i @ ANIMALS ! ?j @ showNat (?q + 1000)"
    using i j by (simp add: candidate_def strAt_def length_words Let_def)
  have bi: "of_nat ?i \<le> rnd (3 * k) * 20 * (1 + 1 / 2 ^ 53) \<and> rnd (3 * k) * 20 < of_nat ?i + 1"
    using floorMul_interval [OF r(1,2), of 20 ?i] by simp
  have bj: "of_nat ?j \<le> rnd (3 * k + 1) * 20 * (1 + 1 / 2 ^ 53)
          \<and> rnd (3 * k + 1) * 20 < of_nat ?j + 1"
    using floorMul_interval [OF r(3,4), of 20 ?j] by simp
  have bq: "of_nat (?q + 1000) - 1000 \<le> rnd (3 * k + 2) * 9000 * (1 + 1 / 2 ^ 53)
          \<and> rnd (3 * k + 2) * 9000 < of_nat (?q + 1000) - 999"
    using floorMul_interval [OF r(5,6), of 9000 ?q] by simp
  have m: "1000 \<le> ?q + 1000" "?q + 1000 \<le> 9999" using q by simp_all
  show ?thesis
    using i j m c bi bj bq by blast
qed

lemma isLabelInUse_iff:
  "isLabelInUse a label \<longleftrightarrow> (\<exists>ls. localStorage a = Some ls \<and> label \<in> snd ` set (da_labels ls))"
  by (simp add: isLabelInUse_def split: option.splits)

lemma labelLoop_result:
  "attempts < 10 \<Longrightarrow>
   \<exists>n. attempts < n \<and> n \<le> 10
     \<and> labelLoop rnd a attempts = (candidate rnd (n - 1), n)
     \<and> (\<forall>k. attempts \<le> k \<and> k < n - 1 \<longrightarrow> isLabelInUse a (candidate rnd k))
     \<and> (isLabelInUse a (candidate rnd (n - 1)) \<longrightarrow> n = 10)"
proof (induction rnd a attempts rule: labelLoop.induct)
  case (1 rnd a attempts)
  have unf: "labelLoop rnd a attempts =
      (if isLabelInUse a (candidate rnd attempts) \<and> attempts + 1 < 10
       then labelLoop rnd a (attempts + 1) else (candidate rnd attempts, attempts + 1))"
    by (subst labelLoop.simps) (simp only: Let_def)
  show ?case
  proof (cases "isLabelInUse a (candidate rnd attempts) \<and> attempts + 1 < 10")
    case False
    then have "labelLoop rnd a attempts = (candidate rnd attempts, attempts + 1)"
      by (simp only: unf simp_thms if_False)
    moreover have "attempts < attempts + 1" "attempts + 1 \<le> 10"
      using "1.prems" by simp_all
    moreover have "\<forall>k. attempts \<le> k \<and> k < attempts + 1 - 1 \<longrightarrow> isLabelInUse a (candidate rnd k)"
      by auto
    moreover have "isLabelInUse a (candidate rnd (attempts + 1 - 1)) \<longrightarrow> attempts + 1 = 10"
      using False "1.prems" by auto
    moreover have "candidate rnd attempts = candidate rnd (attempts + 1 - 1)"
      by simp
    ultimately show ?thesis
      by metis
  next
    case True
    then have eq: "labelLoop rnd a attempts = labelLoop rnd a (attempts + 1)"
      by (simp only: unf simp_thms if_True)
    from True have "attempts + 1 < 10" by simp
    from "1.IH" [OF refl refl True this] obtain n
      where n: "attempts + 1 < n" "n \<le> 10"
        "labelLoop rnd a (attempts + 1) = (candidate rnd (n - 1), n)"
        "\<forall>k. attempts + 1 \<le> k \<and> k < n - 1 \<longrightarrow> isLabelInUse a (candidate rnd k)"
        "isLabelInUse a (candidate rnd (n - 1)) \<longrightarrow> n = 10"
      by blast
    have "\<forall>k. attempts \<le> k \<and> k < n - 1 \<longrightarrow> isLabelInUse a (candidate rnd k)"
    proof (intro allI impI)
      fix k assume k: "attempts \<le> k \<and> k < n - 1"
      show "isLabelInUse a (candidate rnd k)"
      proof (cases "k = attempts")
        case True
        with \<open>isLabelInUse a (candidate rnd attempts) \<and> attempts + 1 < 10\<close> show ?thesis by simp
      next
        case False
        with k have "attempts + 1 \<le> k \<and> k < n - 1" by simp
        with n(4) show ?thesis by blast
      qed
    qed
    with n eq show ?thesis
      by (intro exI [of _ n]) simp
  qed
qed

text \<open>
  Claim C4. When the lookup of a stored label gives nothing (\<^verbatim>\<open>null\<close> or an empty
  string) and the draws are doubles of \<open>[0, 1)\<close>, \<^verbatim>\<open>getFingerprintLabel\<close> returns after \<open>n\<close>
  passes of its loop, with \<open>n\<close> between 1 and 10: the label of pass \<open>n\<close>, which it enters in
  the registry \<^verbatim>\<open>da_labels\<close> under the fingerprint. Every earlier pass produced a label that
  the registry holds, and the label returned is held by the registry only when all 10
  passes were made: after the tenth the collision is accepted. With the store inaccessible
  the check reads nothing, no label counts as held and nothing is entered. Every label
  produced is an adjective, an animal and a number from 1000 to 9999 printed in four
  decimal digits. The adjective of index \<open>i\<close> is produced only by draws \<open>r\<close> with \<open>20 r\<close> below
  \<open>i + 1\<close> and not below \<open>i\<close> by more than one rounding of the product, and likewise the
  animal and the number, so a uniform draw gives a uniform choice up to that rounding. The
  function is total: the loop always ends.
\<close>

theorem getFingerprintLabel_new_label:
  assumes "\<forall>i. roundDouble (rnd i) = rnd i \<and> 0 \<le> rnd i \<and> rnd i < 1"
    and "\<not> truthy (getStoredFingerprintLabel a fp)"
  shows "\<exists>n. 1 \<le> n \<and> n \<le> 10
      \<and> getFingerprintLabel rnd a fp
          = (candidate rnd (n - 1), storeFingerprintLabel a fp (candidate rnd (n - 1)))
      \<and> localStorage (storeFingerprintLabel a fp (candidate rnd (n - 1)))
          = map_option (\<lambda>ls. ls\<lparr>da_labels := setProp (da_labels ls) fp (candidate rnd (n - 1))\<rparr>)
              (localStorage a)
      \<and> (\<forall>k<n - 1. \<exists>ls. localStorage a = Some ls \<and> candidate rnd k \<in> snd ` set (da_labels ls))
      \<and> ((\<exists>ls. localStorage a = Some ls \<and> candidate rnd (n - 1) \<in> snd ` set (da_labels ls))
            \<longrightarrow> n = 10)
      \<and> (\<forall>k. \<exists>i j m. i < 20 \<and> j < 20 \<and> 1000 \<le> m \<and> m \<le> 9999
            \<and> candidate rnd k = ADJECTIVES ! i @ ANIMALS ! j @ showNat m
            \<and> length (showNat m) = 4 \<and> set (showNat m) \<subseteq> set ''0123456789''
            \<and> of_nat i \<le> rnd (3 * k) * 20 * (1 + 1 / 2 ^ 53) \<and> rnd (3 * k) * 20 < of_nat i + 1
            \<and> of_nat j \<le> rnd (3 * k + 1) * 20 * (1 + 1 / 2 ^ 53)
            \<and> rnd (3 * k + 1) * 20 < of_nat j + 1
            \<and> of_nat m - 1000 \<le> rnd (3 * k + 2) * 9000 * (1 + 1 / 2 ^ 53)
            \<and> rnd (3 * k + 2) * 9000 < of_nat m - 999)"
proof -
  from labelLoop_result [of 0 rnd a] obtain n
    where n: "0 < n" "n \<le> 10" "labelLoop rnd a 0 = (candidate rnd (n - 1), n)"
      "\<forall>k. 0 \<le> k \<and> k < n - 1 \<longrightarrow> isLabelInUse a (candidate rnd k)"
      "isLabelInUse a (candidate rnd (n - 1)) \<longrightarrow> n = 10"
    by auto
  have g: "getFingerprintLabel rnd a fp
      = (candidate rnd (n - 1), storeFingerprintLabel a fp (candidate rnd (n - 1)))"
    using assms(2) n(3)
    by (simp add: getFingerprintLabel_def truthy_def Let_def split: option.splits)
  have st: "localStorage (storeFingerprintLabel a fp l)
          = map_option (\<lambda>ls. ls\<lparr>da_labels := setProp (da_labels ls) fp l\<rparr>) (localStorage a)" for l
    by (simp add: storeFingerprintLabel_def split: option.splits)
  have form: "\<exists>i j m. i < 20 \<and> j < 20 \<and> 1000 \<le> m \<and> m \<le> 9999
            \<and> candidate rnd k = ADJECTIVES ! i @ ANIMALS ! j @ showNat m
            \<and> length (showNat m) = 4 \<and> set (showNat m) \<subseteq> set ''0123456789''
            \<and> of_nat i \<le> rnd (3 * k) * 20 * (1 + 1 / 2 ^ 53) \<and> rnd (3 * k) * 20 < of_nat i + 1
            \<and> of_nat j \<le> rnd (3 * k + 1) * 20 * (1 + 1 / 2 ^ 53)
            \<and> rnd (3 * k + 1) * 20 < of_nat j + 1
            \<and> of_nat m - 1000 \<le> rnd (3 * k + 2) * 9000 * (1 + 1 / 2 ^ 53)
            \<and> rnd (3 * k + 2) * 9000 < of_nat m - 999" for k
  proof -
    from candidate_form [OF assms(1), of k] obtain i j m
      where c: "i < 20" "j < 20" "1000 \<le> m" "m \<le> 9999"
        "candidate rnd k = ADJECTIVES ! i @ ANIMALS ! j @ showNat m"
        "of_nat i \<le> rnd (3 * k) * 20 * (1 + 1 / 2 ^ 53)" "rnd (3 * k) * 20 < of_nat i + 1"
        "of_nat j \<le> rnd (3 * k + 1) * 20 * (1 + 1 / 2 ^ 53)" "rnd (3 * k + 1) * 20 < of_nat j + 1"
        "of_nat m - 1000 \<le> rnd (3 * k + 2) * 9000 * (1 + 1 / 2 ^ 53)"
        "rnd (3 * k + 2) * 9000 < of_nat m - 999"
      by blast
    from showNat_four_digits [OF c(3,4)] c show ?thesis by blast
  qed
  from n(1) have "1 \<le> n" by simp
  moreover from n(4) have "\<forall>k<n - 1. \<exists>ls. localStorage a = Some ls
      \<and> candidate rnd k \<in> snd ` set (da_labels ls)"
    by (simp add: isLabelInUse_iff)
  moreover from n(5) have "(\<exists>ls. localStorage a = Some ls
      \<and> candidate rnd (n - 1) \<in> snd ` set (da_labels ls)) \<longrightarrow> n = 10"
    by (simp only: isLabelInUse_iff)
  ultimately show ?thesis
    using n(2) g st form by blast
qed


lemma candidate_zero: "candidate (\<lambda>_. 0) k = ''SuperLion1000''"
  by (simp add: candidate_def floorMul_zero strAt_def ADJECTIVES_def ANIMALS_def digitChar_def Let_def)

theorem getFingerprintLabel_new_label_witness:
  "getFingerprintLabel (\<lambda>_. 0)
     (client (Some ''ab12'') None (Some (labelStore None [(''ffff'', ''SuperLion1000'')]))) ''ab12''
   = (''SuperLion1000'',
      client (Some ''ab12'') None
        (Some (labelStore None [(''ffff'', ''SuperLion1000''), (''ab12'', ''SuperLion1000'')])))
   \<and> ''SuperLion1000'' \<in> snd ` set (da_labels (labelStore None [(''ffff'', ''SuperLion1000'')]))"
proof -
  let ?a = "client (Some ''ab12'') None (Some (labelStore None [(''ffff'', ''SuperLion1000'')]))"
  have 1: "\<forall>i. roundDouble ((\<lambda>_. 0 :: rat) i) = (\<lambda>_. 0 :: rat) i
             \<and> 0 \<le> (\<lambda>_. 0 :: rat) i \<and> (\<lambda>_. 0 :: rat) i < 1"
    by (simp add: roundDouble_def)
  have 2: "\<not> truthy (getStoredFingerprintLabel ?a ''ab12'')"
    by (simp add: truthy_def getStoredFingerprintLabel_def client_def labelStore_def emptyStore_def)
  from getFingerprintLabel_new_label [OF 1 2] obtain n
    where "getFingerprintLabel (\<lambda>_. 0) ?a ''ab12''
          = (candidate (\<lambda>_. 0) (n - 1), storeFingerprintLabel ?a ''ab12'' (candidate (\<lambda>_. 0) (n - 1)))"
    by blast
  then have "getFingerprintLabel (\<lambda>_. 0) ?a ''ab12''
          = (''SuperLion1000'', storeFingerprintLabel ?a ''ab12'' ''SuperLion1000'')"
    by (simp only: candidate_zero)
  then show ?thesis
    by (simp add: storeFingerprintLabel_def setProp_def client_def labelStore_def emptyStore_def)
qed

subsection \<open>Reading a persisted label\<close>

text \<open>With \<^verbatim>\<open>localStorage\<close> accessible, the label just persisted is read back.\<close>

lemma getStoredFingerprintLabel_after_store:
  assumes "localStorage a = Some ls" and "fingerprint a = Some fp"
  shows "getStoredFingerprintLabel (fst (storeFingerprintPersistently now a)) fp = fingerprintLabel a"
  using assms
  by (simp add: storeFingerprintPersistently_def getStoredFingerprintLabel_def storeInIndexedDB_def
        Let_def split: option.splits)


text \<open>
  Claim C7 at two clients whose other backends work. Without access to \<^verbatim>\<open>localStorage\<close>
  the first write of line 409 throws, the writes to the other three backends are skipped,
  and the label is not read back. After a write that reached all four backends, a
  \<^verbatim>\<open>localStorage\<close> that is empty or inaccessible makes the read return \<^verbatim>\<open>null\<close>, although
  three backends hold the label: \<^verbatim>\<open>getStoredFingerprintLabel\<close> consults no other backend.
\<close>

theorem stored_label_not_read_back:
  "storeFingerprintPersistently (\<lambda>_. 5) (client (Some ''ab12'') (Some ''SuperLion1000'') None)
     = (client (Some ''ab12'') (Some ''SuperLion1000'') None,
        [Log Error ''Failed to store fingerprint persistently''])
   \<and> getStoredFingerprintLabel (client (Some ''ab12'') (Some ''SuperLion1000'') None) ''ab12'' = None
   \<and> storeFingerprintPersistently (\<lambda>_. 5)
       (client (Some ''ab12'') (Some ''SuperLion1000'') (Some emptyStore))
     = (\<lparr>fingerprint = Some ''ab12'', fingerprintLabel = Some ''SuperLion1000'',
         localStorage = Some (labelStore (Some persisted) []),
         sessionStorage = Some (Some persisted),
         indexedDB = Some [(Some ''ab12'', persisted)],
         cookie = Some (Some persisted)\<rparr>, [])
   \<and> getStoredFingerprintLabel
       \<lparr>fingerprint = Some ''ab12'', fingerprintLabel = Some ''SuperLion1000'',
        localStorage = Some emptyStore,
        sessionStorage = Some (Some persisted),
        indexedDB = Some [(Some ''ab12'', persisted)],
        cookie = Some (Some persisted)\<rparr> ''ab12'' = None
   \<and> getStoredFingerprintLabel
       \<lparr>fingerprint = Some ''ab12'', fingerprintLabel = Some ''SuperLion1000'',
        localStorage = None,
        sessionStorage = Some (Some persisted),
        indexedDB = Some [(Some ''ab12'', persisted)],
        cookie = Some (Some persisted)\<rparr> ''ab12'' = None"
  by (simp add: storeFingerprintPersistently_def getStoredFingerprintLabel_def storeInIndexedDB_def
        client_def labelStore_def emptyStore_def persisted_def Let_def)

subsection \<open>The fingerprint of a bundle\<close>

lemma map_of_components:
  "map_of (components c p) ''hardware'' = (if fc_hardware c then Some (getHardwareFingerprint p) else None)"
  "map_of (components c p) ''browser'' = (if fc_browser c then Some (getBrowserFingerprint p) else None)"
  "map_of (components c p) ''canvas'' = (if fc_canvas c then Some (getCanvasFingerprint p) else None)"
  "map_of (components c p) ''webgl'' = (if fc_webgl c then Some (getWebGLFingerprint p) else None)"
  "map_of (components c p) ''audio'' = (if fc_audio c then Some (getAudioFingerprint p) else None)"
  "map_of (components c p) ''fonts'' = (if fc_fonts c then Some (getFontFingerprint p) else None)"
  by (simp_all add: components_def)

lemma entry_components:
  "entry (map_of (components c p)) ''hardware'' = (if fc_hardware c then [(''hardware'', getHardwareFingerprint p)] else [])"
  "entry (map_of (components c p)) ''browser'' = (if fc_browser c then [(''browser'', getBrowserFingerprint p)] else [])"
  "entry (map_of (components c p)) ''canvas'' = (if fc_canvas c then [(''canvas'', getCanvasFingerprint p)] else [])"
  "entry (map_of (components c p)) ''webgl'' = (if fc_webgl c then [(''webgl'', getWebGLFingerprint p)] else [])"
  "entry (map_of (components c p)) ''audio'' = (if fc_audio c then [(''audio'', getAudioFingerprint p)] else [])"
  "entry (map_of (components c p)) ''fonts'' = (if fc_fonts c then [(''fonts'', getFontFingerprint p)] else [])"
  by (simp_all only: entry_def map_of_components option.case if_distrib [of "case_option _ _"] cong: if_cong)

lemma components_from_map:
  "components c p =
     entry (map_of (components c p)) ''hardware'' @ entry (map_of (components c p)) ''browser'' @
     entry (map_of (components c p)) ''canvas'' @ entry (map_of (components c p)) ''webgl'' @
     entry (map_of (components c p)) ''audio'' @ entry (map_of (components c p)) ''fonts''"
  by (simp only: entry_components) (simp only: components_def append_assoc)

lemma components_eqI:
  assumes "map_of (components c1 p1) = map_of (components c2 p2)"
  shows "components c1 p1 = components c2 p2"
  by (subst components_from_map, subst (2) components_from_map) (simp only: assms)

lemma fingerprint_getFingerprintLabel:
  "fingerprint (snd (getFingerprintLabel rnd a fp)) = fingerprint a"
  by (simp add: getFingerprintLabel_def storeFingerprintLabel_def Let_def split: option.splits)

lemma fingerprint_storeFingerprintPersistently:
  "fingerprint (fst (storeFingerprintPersistently now a)) = fingerprint a"
  by (simp add: storeFingerprintPersistently_def storeInIndexedDB_def Let_def split: option.splits)

lemma fingerprint_generateFingerprint:
  assumes "enableFingerprinting c"
  shows "fingerprint (fst (generateFingerprint digest ser rnd now c p a))
           = Some (hashString digest (JSON_stringify ser (components c p)))"
proof -
  let ?fp = "hashString digest (JSON_stringify ser (components c p))"
  let ?a1 = "a\<lparr>fingerprint := Some ?fp\<rparr>"
  obtain label a2 where g: "getFingerprintLabel rnd ?a1 ?fp = (label, a2)"
    by (cases "getFingerprintLabel rnd ?a1 ?fp")
  have f2: "fingerprint a2 = Some ?fp"
    using fingerprint_getFingerprintLabel [of rnd ?a1 ?fp] g by simp
  let ?a3 = "a2\<lparr>fingerprintLabel := Some label\<rparr>"
  have f3: "fingerprint ?a3 = Some ?fp" using f2 by simp
  show ?thesis
  proof (cases "fingerprintPersistence c")
    case True
    obtain a4 effs where s: "storeFingerprintPersistently now ?a3 = (a4, effs)"
      by (cases "storeFingerprintPersistently now ?a3")
    have "fingerprint a4 = Some ?fp"
      using fingerprint_storeFingerprintPersistently [of now ?a3] s f3 by simp
    then show ?thesis
      using assms True g s by (simp add: generateFingerprint_def Let_def)
  next
    case False
    then show ?thesis
      using assms g f3 by (simp add: generateFingerprint_def Let_def)
  qed
qed

text \<open>
  Claim C1. Two runs of \<^verbatim>\<open>generateFingerprint\<close> whose bundles have the same content, as
  mappings from category to value, compute the same fingerprint, whatever the digest
  function of the browser is: the keys of a bundle are inserted in the fixed order of lines
  191 to 213, so equal content is serialised to equal text.
\<close>

theorem generateFingerprint_same_content:
  assumes "enableFingerprinting c1" and "enableFingerprinting c2"
    and "map_of (components c1 p1) = map_of (components c2 p2)"
  shows "fingerprint (fst (generateFingerprint digest ser rnd1 now1 c1 p1 a1))
           = fingerprint (fst (generateFingerprint digest ser rnd2 now2 c2 p2 a2))"
  by (simp only: fingerprint_generateFingerprint [OF assms(1)]
        fingerprint_generateFingerprint [OF assms(2)] components_eqI [OF assms(3)])


theorem generateFingerprint_same_content_witness:
  "fingerprint (fst (generateFingerprint toyDigest id (\<lambda>_. 0) (\<lambda>_. 5) someConfig (someSignals ''1'')
       (client None None (Some emptyStore))))
   = fingerprint (fst (generateFingerprint toyDigest id (\<lambda>_. 0) (\<lambda>_. 5) someConfig (someSignals ''7'')
       (client None None (Some emptyStore))))
   \<and> fingerprint (fst (generateFingerprint toyDigest id (\<lambda>_. 0) (\<lambda>_. 5) someConfig (someSignals ''1'')
       (client None None (Some emptyStore)))) = Some ''180aff''"
proof -
  have 1: "enableFingerprinting someConfig" by (simp add: someConfig_def)
  have 2: "map_of (components someConfig (someSignals ''1''))
         = map_of (components someConfig (someSignals ''7''))"
    by (simp add: components_def someConfig_def someSignals_def)
  have 3: "fingerprint (fst (generateFingerprint toyDigest id (\<lambda>_. 0) (\<lambda>_. 5) someConfig (someSignals ''7'')
       (client None None (Some emptyStore)))) = Some ''180aff''"
    by (simp add: generateFingerprint_def getFingerprintLabel_def getStoredFingerprintLabel_def
          storeFingerprintLabel_def storeFingerprintPersistently_def storeInIndexedDB_def
          JSON_stringify_def components_def hashString_def toString16_def padStart2_def
          hexDigit_def toyDigest_def someConfig_def someSignals_def client_def emptyStore_def
          Let_def split_def)
  from generateFingerprint_same_content [OF 1 1 2, of toyDigest id "\<lambda>_. 0" "\<lambda>_. 5"
      "client None None (Some emptyStore)" "\<lambda>_. 0" "\<lambda>_. 5" "client None None (Some emptyStore)"] 3
  show ?thesis by simp
qed


subsection \<open>One fingerprint, two labels\<close>












subsection \<open>Failed transmissions\<close>

lemma flushEventQueue_queue:
  "eventQueue (flushEventQueue d) = drop (batchSize d) (eventQueue d)"
  by (simp add: flushEventQueue_def sendToDiscord_def Let_def split: list.splits)

lemma flushEventQueue_keeps:
  "set (eventQueue d) \<union> set (inFlight d)
     \<subseteq> set (eventQueue (flushEventQueue d)) \<union> set (inFlight (flushEventQueue d))"
proof (cases "take (batchSize d) (eventQueue d)")
  case Nil
  then have "eventQueue d = [] \<or> batchSize d = 0" by auto
  with Nil show ?thesis
    by (auto simp: flushEventQueue_def Let_def)
next
  case (Cons x xs)
  then have ne: "eventQueue d \<noteq> []" by auto
  have "set (eventQueue d) = set (take (batchSize d) (eventQueue d)) \<union> set (drop (batchSize d) (eventQueue d))"
    by (metis append_take_drop_id set_append)
  then have "set (eventQueue d) = set (x # xs) \<union> set (drop (batchSize d) (eventQueue d))"
    by (simp only: Cons)
  then show ?thesis
    using ne Cons by (auto simp: flushEventQueue_def sendToDiscord_def inFlight_def Let_def)
qed

lemma queueEvent_queue:
  "eventQueue (queueEvent d e) =
     (if batchSize d \<le> length (eventQueue d) + 1 then drop (batchSize d) (eventQueue d @ [e])
      else eventQueue d @ [e])"
  by (simp add: queueEvent_def flushEventQueue_queue Let_def)

lemma queueEvent_keeps:
  "set (eventQueue d @ [e]) \<union> set (inFlight d)
     \<subseteq> set (eventQueue (queueEvent d e)) \<union> set (inFlight (queueEvent d e))"
proof -
  let ?d1 = "d\<lparr>eventQueue := eventQueue d @ [e]\<rparr>"
  have "set (eventQueue ?d1) \<union> set (inFlight ?d1)
     \<subseteq> set (eventQueue (flushEventQueue ?d1)) \<union> set (inFlight (flushEventQueue ?d1))"
    by (rule flushEventQueue_keeps)
  moreover have "inFlight ?d1 = inFlight d" by (simp add: inFlight_def)
  ultimately show ?thesis
    by (auto simp: queueEvent_def Let_def)
qed

lemma settle_task:
  assumes "i < length (tasks d)"
    and "tasks d ! i = SendSingle e \<or> tasks d ! i = FlushSending e rest"
  shows "dispatch d (FetchSettled i ok) =
     sendToDiscord_settled ok
       (d\<lparr>tasks := (if tasks d ! i = SendSingle e then removeAt i (tasks d)
                     else (tasks d)[i := FlushDelay rest])\<rparr>) e"
  using assms by (auto simp: dispatch_def)

text \<open>
  Claim C5, as the code has it. When the \<^verbatim>\<open>fetch\<close> of a suspended send fails while
  \<^verbatim>\<open>isOnline\<close> is true, \<^verbatim>\<open>queueEvent\<close> appends the embed at the tail of the queue; if the queue
  thereby reaches \<^verbatim>\<open>batchSize\<close>, its first \<^verbatim>\<open>batchSize\<close> entries leave it at once for a new
  flush. Either way the embed and everything queued before it are still in the queue or held
  by a task. When the \<^verbatim>\<open>fetch\<close> fails while \<^verbatim>\<open>isOnline\<close> is false, the guard of line 990 skips
  \<^verbatim>\<open>queueEvent\<close>: the queue and the requests are as before and the task only moves on.
\<close>

theorem failed_send_requeued_when_online:
  assumes "i < length (tasks d)"
    and "tasks d ! i = SendSingle e \<or> tasks d ! i = FlushSending e rest"
  shows "(isOnline d \<longrightarrow>
            eventQueue (dispatch d (FetchSettled i False))
              = (if batchSize d \<le> length (eventQueue d) + 1
                 then drop (batchSize d) (eventQueue d @ [e]) else eventQueue d @ [e])
          \<and> set (eventQueue d @ [e])
              \<subseteq> set (eventQueue (dispatch d (FetchSettled i False)))
                \<union> set (inFlight (dispatch d (FetchSettled i False))))
       \<and> (\<not> isOnline d \<longrightarrow>
            eventQueue (dispatch d (FetchSettled i False)) = eventQueue d
          \<and> requests (dispatch d (FetchSettled i False)) = requests d
          \<and> tasks (dispatch d (FetchSettled i False))
              = (if tasks d ! i = SendSingle e then removeAt i (tasks d)
                 else (tasks d)[i := FlushDelay rest]))"
proof -
  let ?d = "d\<lparr>tasks := (if tasks d ! i = SendSingle e then removeAt i (tasks d)
                          else (tasks d)[i := FlushDelay rest])\<rparr>"
  have s: "dispatch d (FetchSettled i False) = sendToDiscord_settled False ?d e"
    by (rule settle_task [OF assms])
  have on: "sendToDiscord_settled False ?d e = queueEvent ?d e" if "isOnline d"
    using that by (simp add: sendToDiscord_settled_def)
  have off: "sendToDiscord_settled False ?d e = ?d" if "\<not> isOnline d"
    using that by (simp add: sendToDiscord_settled_def)
  have keep: "set (eventQueue ?d @ [e]) \<subseteq> set (eventQueue (queueEvent ?d e)) \<union> set (inFlight (queueEvent ?d e))"
    using queueEvent_keeps [of ?d e] by blast
  show ?thesis
  proof (cases "isOnline d")
    case True
    have q: "eventQueue (queueEvent ?d e)
        = (if batchSize d \<le> length (eventQueue d) + 1
           then drop (batchSize d) (eventQueue d @ [e]) else eventQueue d @ [e])"
      using queueEvent_queue [of ?d e] by simp
    have k: "set (eventQueue d @ [e]) \<subseteq> set (eventQueue (queueEvent ?d e)) \<union> set (inFlight (queueEvent ?d e))"
      using keep by simp
    show ?thesis
      using True q k by (simp only: s on [OF True] simp_thms)
  next
    case False
    show ?thesis
      using False by (simp only: s off [OF False]) simp
  qed
qed

theorem failed_send_requeued_when_online_witness:
  "eventQueue (dispatch
      \<lparr>eventQueue = [''a''], isOnline = True, batchSize = 10, tasks = [SendSingle ''b''], requests = [''b'']\<rparr>
      (FetchSettled 0 False)) = [''a'', ''b'']
   \<and> tasks (dispatch
      \<lparr>eventQueue = [''a''], isOnline = False, batchSize = 10,
       tasks = [FlushSending ''b'' [''c'']], requests = [''b'']\<rparr>
      (FetchSettled 0 False)) = [FlushDelay [''c'']]
   \<and> eventQueue (dispatch
      \<lparr>eventQueue = [''a''], isOnline = False, batchSize = 10,
       tasks = [FlushSending ''b'' [''c'']], requests = [''b'']\<rparr>
      (FetchSettled 0 False)) = [''a'']"
  using failed_send_requeued_when_online [of 0
      "\<lparr>eventQueue = [''a''], isOnline = True, batchSize = 10, tasks = [SendSingle ''b''], requests = [''b'']\<rparr>"
      "''b''" "[]"]
    failed_send_requeued_when_online [of 0
      "\<lparr>eventQueue = [''a''], isOnline = False, batchSize = 10,
        tasks = [FlushSending ''b'' [''c'']], requests = [''b'']\<rparr>"
      "''b''" "[''c'']"]
  by simp

text \<open>
  Claim C5, as stated, fails offline. A high-priority observation submitted while
  \<^verbatim>\<open>isOnline\<close> is false is transmitted at once; when that transmission fails, the embed is
  neither in the queue nor held by any task.
\<close>

theorem failed_send_dropped_counterexample:
  "run (fresh False 10) [Submit ''javascript_error'' True True, FetchSettled 0 False]
     = \<lparr>eventQueue = [], isOnline = False, batchSize = 10, tasks = [],
        requests = [''javascript_error'']\<rparr>"
  by (simp add: run_def dispatch_def sendEvent_def sendToDiscord_settled_def sendToDiscord_def
        removeAt_def fresh_def Let_def)


subsection \<open>Twelve observations submitted offline\<close>

lemma run_Cons: "run d (ev # evs) = run (dispatch d ev) evs"
  by (simp add: run_def)

lemma run_Nil: "run d [] = d"
  by (simp add: run_def)

lemma settle_unchanged:
  "ok \<or> \<not> isOnline d \<Longrightarrow> sendToDiscord_settled ok d e = d"
  by (auto simp: sendToDiscord_settled_def)

lemma flush_round:
  assumes "tasks d = [FlushSending e rest]" and "ok \<or> \<not> isOnline d"
  shows "run d [FetchSettled 0 ok, DelayEnded 0] =
     (case rest of
        [] \<Rightarrow> d\<lparr>tasks := []\<rparr>
      | e' # rest' \<Rightarrow> d\<lparr>requests := requests d @ [e'], tasks := [FlushSending e' rest']\<rparr>)"
proof -
  have 1: "dispatch d (FetchSettled 0 ok) = d\<lparr>tasks := [FlushDelay rest]\<rparr>"
    using assms by (simp add: dispatch_def settle_unchanged)
  have 2: "dispatch (d\<lparr>tasks := [FlushDelay rest]\<rparr>) (DelayEnded 0) =
     (case rest of
        [] \<Rightarrow> d\<lparr>tasks := []\<rparr>
      | e' # rest' \<Rightarrow> d\<lparr>requests := requests d @ [e'], tasks := [FlushSending e' rest']\<rparr>)"
    by (simp add: dispatch_def sendToDiscord_def removeAt_def Let_def split: list.splits)
  show ?thesis
    by (simp only: run_Cons run_Nil 1 2)
qed

lemma run_flush:
  assumes "tasks d = [FlushSending e rest]"
    and "length rs = Suc (length rest)"
    and "list_all (\<lambda>ok. ok \<or> \<not> isOnline d) rs"
  shows "run d (concat (map (\<lambda>ok. [FetchSettled 0 ok, DelayEnded 0]) rs))
           = d\<lparr>tasks := [], requests := requests d @ rest\<rparr>"
  using assms
proof (induction rest arbitrary: d e rs)
  case Nil
  then obtain ok where rs: "rs = [ok]" by (cases rs) auto
  with Nil have "ok \<or> \<not> isOnline d" by simp
  from flush_round [OF Nil(1) this] show ?case
    by (simp add: rs)
next
  case (Cons e' rest')
  then obtain ok rs' where rs: "rs = ok # rs'" by (cases rs) auto
  let ?d = "d\<lparr>requests := requests d @ [e'], tasks := [FlushSending e' rest']\<rparr>"
  from Cons rs have ok: "ok \<or> \<not> isOnline d" by simp
  have r: "run d [FetchSettled 0 ok, DelayEnded 0] = ?d"
    using flush_round [OF Cons(2) ok] by simp
  have "run d (concat (map (\<lambda>ok. [FetchSettled 0 ok, DelayEnded 0]) rs))
        = run (run d [FetchSettled 0 ok, DelayEnded 0])
            (concat (map (\<lambda>ok. [FetchSettled 0 ok, DelayEnded 0]) rs'))"
    by (simp add: rs run_def)
  also have "\<dots> = ?d\<lparr>tasks := [], requests := requests ?d @ rest'\<rparr>"
    unfolding r using Cons(3,4) rs by (intro Cons.IH [of ?d e']) simp_all
  finally show ?case by simp
qed

lemma submit_twelve:
  "run (fresh False 10)
     (map (\<lambda>e. Submit e True False) [x1, x2, x3, x4, x5, x6, x7, x8, x9, x10, x11, x12])
     = \<lparr>eventQueue = [x11, x12], isOnline = False, batchSize = 10,
        tasks = [FlushSending x1 [x2, x3, x4, x5, x6, x7, x8, x9, x10]], requests = [x1]\<rparr>"
  by (simp add: run_def dispatch_def sendEvent_def queueEvent_def flushEventQueue_def
        sendToDiscord_def fresh_def Let_def)

lemma back_online:
  "dispatch \<lparr>eventQueue = [x11, x12], isOnline = False, batchSize = 10, tasks = [], requests = rq\<rparr> Online
     = \<lparr>eventQueue = [], isOnline = True, batchSize = 10, tasks = [FlushSending x11 [x12]],
        requests = rq @ [x11]\<rparr>"
  by (simp add: dispatch_def flushOfflineEvents_def flushEventQueue_def sendToDiscord_def Let_def)

text \<open>
  Claim C9: the code does not hold the twelve. \<^verbatim>\<open>sendEvent\<close> queues an observation
  submitted offline, and \<^verbatim>\<open>flushOfflineEvents\<close> is there to send the queue when connectivity
  returns; but \<^verbatim>\<open>queueEvent\<close> flushes whenever the queue reaches \<^verbatim>\<open>batchSize\<close> and does not
  test \<^verbatim>\<open>isOnline\<close>. For any twelve embeds, the tenth submission starts a flush while
  offline: the first ten leave the queue, and after the twelfth submission the queue holds
  the last two. Whatever the outcomes \<open>r1\<close> to \<open>r10\<close> of its transmissions, that flush
  issues the ten requests in the order of submission, and none of the ten is in the queue
  or in a task afterwards: a transmission that fails offline is not re-enqueued. When
  connectivity returns, the only flush takes the two queued embeds and sends them in order.
\<close>

theorem offline_batch_scenario:
  "run (fresh False 10)
     (map (\<lambda>e. Submit e True False) [x1, x2, x3, x4, x5, x6, x7, x8, x9, x10, x11, x12])
     = \<lparr>eventQueue = [x11, x12], isOnline = False, batchSize = 10,
        tasks = [FlushSending x1 [x2, x3, x4, x5, x6, x7, x8, x9, x10]], requests = [x1]\<rparr>
   \<and> run \<lparr>eventQueue = [x11, x12], isOnline = False, batchSize = 10,
          tasks = [FlushSending x1 [x2, x3, x4, x5, x6, x7, x8, x9, x10]], requests = [x1]\<rparr>
       [FetchSettled 0 r1, DelayEnded 0, FetchSettled 0 r2, DelayEnded 0, FetchSettled 0 r3, DelayEnded 0,
        FetchSettled 0 r4, DelayEnded 0, FetchSettled 0 r5, DelayEnded 0, FetchSettled 0 r6, DelayEnded 0,
        FetchSettled 0 r7, DelayEnded 0, FetchSettled 0 r8, DelayEnded 0, FetchSettled 0 r9, DelayEnded 0,
        FetchSettled 0 r10, DelayEnded 0]
     = \<lparr>eventQueue = [x11, x12], isOnline = False, batchSize = 10, tasks = [],
        requests = [x1, x2, x3, x4, x5, x6, x7, x8, x9, x10]\<rparr>
   \<and> dispatch \<lparr>eventQueue = [x11, x12], isOnline = False, batchSize = 10, tasks = [],
               requests = [x1, x2, x3, x4, x5, x6, x7, x8, x9, x10]\<rparr> Online
     = \<lparr>eventQueue = [], isOnline = True, batchSize = 10, tasks = [FlushSending x11 [x12]],
        requests = [x1, x2, x3, x4, x5, x6, x7, x8, x9, x10, x11]\<rparr>
   \<and> run \<lparr>eventQueue = [], isOnline = True, batchSize = 10, tasks = [FlushSending x11 [x12]],
          requests = [x1, x2, x3, x4, x5, x6, x7, x8, x9, x10, x11]\<rparr>
       [FetchSettled 0 True, DelayEnded 0, FetchSettled 0 True, DelayEnded 0]
     = \<lparr>eventQueue = [], isOnline = True, batchSize = 10, tasks = [],
        requests = [x1, x2, x3, x4, x5, x6, x7, x8, x9, x10, x11, x12]\<rparr>"
proof -
  let ?s1 = "\<lparr>eventQueue = [x11, x12], isOnline = False, batchSize = 10,
        tasks = [FlushSending x1 [x2, x3, x4, x5, x6, x7, x8, x9, x10]], requests = [x1]\<rparr>"
  let ?s3 = "\<lparr>eventQueue = [], isOnline = True, batchSize = 10, tasks = [FlushSending x11 [x12]],
          requests = [x1, x2, x3, x4, x5, x6, x7, x8, x9, x10, x11]\<rparr>"
  have 2: "run ?s1 (concat (map (\<lambda>ok. [FetchSettled 0 ok, DelayEnded 0])
                 [r1, r2, r3, r4, r5, r6, r7, r8, r9, r10]))
      = ?s1\<lparr>tasks := [], requests := requests ?s1 @ [x2, x3, x4, x5, x6, x7, x8, x9, x10]\<rparr>"
    by (rule run_flush [where e = x1]) simp_all
  have 4: "run ?s3 (concat (map (\<lambda>ok. [FetchSettled 0 ok, DelayEnded 0]) [True, True]))
      = ?s3\<lparr>tasks := [], requests := requests ?s3 @ [x12]\<rparr>"
    by (rule run_flush [where e = x11]) simp_all
  have 3: "dispatch \<lparr>eventQueue = [x11, x12], isOnline = False, batchSize = 10, tasks = [],
               requests = [x1, x2, x3, x4, x5, x6, x7, x8, x9, x10]\<rparr> Online = ?s3"
    using back_online [of x11 x12 "[x1, x2, x3, x4, x5, x6, x7, x8, x9, x10]"] by simp
  show ?thesis
  proof (intro conjI)
    show "run (fresh False 10)
        (map (\<lambda>e. Submit e True False) [x1, x2, x3, x4, x5, x6, x7, x8, x9, x10, x11, x12]) = ?s1"
      by (rule submit_twelve)
  qed (use 2 3 4 in simp_all)
qed


text \<open>
  At twelve concrete embeds: after twelve submissions made offline with a batch size of 10
  the queue holds two payloads, not twelve; the other ten were taken by the flush of the
  tenth submission.
\<close>

theorem offline_batch_counterexample:
  "run (fresh False 10)
     (map (\<lambda>e. Submit e True False)
        [''o1'', ''o2'', ''o3'', ''o4'', ''o5'', ''o6'', ''o7'', ''o8'', ''o9'', ''o10'', ''o11'', ''o12''])
     = \<lparr>eventQueue = [''o11'', ''o12''], isOnline = False, batchSize = 10,
        tasks = [FlushSending ''o1'' [''o2'', ''o3'', ''o4'', ''o5'', ''o6'', ''o7'', ''o8'', ''o9'', ''o10'']],
        requests = [''o1'']\<rparr>
   \<and> length (eventQueue (run (fresh False 10)
       (map (\<lambda>e. Submit e True False)
          [''o1'', ''o2'', ''o3'', ''o4'', ''o5'', ''o6'', ''o7'', ''o8'', ''o9'', ''o10'', ''o11'', ''o12'']))) = 2"
  by (simp add: run_def dispatch_def sendEvent_def queueEvent_def flushEventQueue_def
        sendToDiscord_def fresh_def Let_def)



end
